theory Spec2Isabelle
  imports Main
begin

section \<open>Editor and query data\<close>

text \<open>
  The values the CodeLens provider reads and builds. A source range of the editor is a
  pair of positions; a rule of the query result carries its label \<open>name\<close>, its
  \<open>ruleClass\<close> and a location holding the range of the rule in the BUILD file.
\<close>

record position =
  line :: nat
  character :: nat

record vs_range =
  range_start :: position
  range_end :: position

record location =
  location_range :: vs_range

record rule =
  name :: string
  ruleClass :: string
  location :: location

record query_result =
  rules :: "rule list"

text \<open>
  \<open>new CodeLensCommandAdapter(bazelWorkspaceDirectory, [target])\<close>: the argument object of
  a command, holding the workspace directory and the list of targets.
\<close>

record command_adapter =
  workspaceDirectory :: string
  targets :: "string list"

text \<open>The object literal of type \<open>vscode.Command\<close> and \<open>new vscode.CodeLens(range, cmd)\<close>.\<close>

record vs_command =
  arguments :: "command_adapter list"
  command :: string
  title :: string
  tooltip :: string

record code_lens =
  lens_range :: vs_range
  lens_command :: vs_command

section \<open>JavaScript string primitives\<close>

text \<open>
  A JavaScript string is a sequence of code units, modelled as \<open>string\<close>; an index is an
  \<open>int\<close>, as the loops of the path module count below zero. \<open>charCodeAt\<close> is \<open>NaN\<close>
  outside the string, which compares unequal to every code unit: that is \<open>None\<close>.
  \<open>slice\<close> is \<open>s.slice(a, b)\<close> with its clamping of both ends, \<open>slice_from\<close> is
  \<open>s.slice(a)\<close>, \<open>lastIndexOf\<close> is \<open>- 1\<close> when the code unit does not occur, and
  A \<open>char\<close> is a code unit below 256; \<open>toLowerCase\<close> maps the cased ones, as
  JavaScript does there: \<open>A\<close> to \<open>Z\<close>, and \<open>0xC0\<close> to \<open>0xDE\<close> but for the
  multiplication sign \<open>0xD7\<close>, each to the code unit 32 above it.
\<close>

abbreviation BACKSLASH :: char where "BACKSLASH \<equiv> CHR 0x5C"

definition charCodeAt :: "string \<Rightarrow> int \<Rightarrow> char option" where
  "charCodeAt s i = (if 0 \<le> i \<and> i < int (length s) then Some (s ! nat i) else None)"

definition slice :: "string \<Rightarrow> int \<Rightarrow> int \<Rightarrow> string" where
  "slice s a b =
     (let n = int (length s);
          from = (if a < 0 then max (n + a) 0 else min a n);
          to = (if b < 0 then max (n + b) 0 else min b n)
      in take (nat (to - from)) (drop (nat from) s))"

definition slice_from :: "string \<Rightarrow> int \<Rightarrow> string" where
  "slice_from s a = slice s a (int (length s))"

fun lastIndexOf_scan :: "string \<Rightarrow> char \<Rightarrow> int \<Rightarrow> int \<Rightarrow> int" where
  "lastIndexOf_scan [] c i found = found"
| "lastIndexOf_scan (x # xs) c i found = lastIndexOf_scan xs c (i + 1) (if x = c then i else found)"

definition lastIndexOf :: "string \<Rightarrow> char \<Rightarrow> int" where
  "lastIndexOf s c = lastIndexOf_scan s c 0 (- 1)"

definition toLowerCase :: "string \<Rightarrow> string" where
  "toLowerCase s =
     map (\<lambda>c. let n = (of_char c :: nat)
              in if (65 \<le> n \<and> n \<le> 90) \<or> (192 \<le> n \<and> n \<le> 222 \<and> n \<noteq> 215)
                 then char_of (n + 32) else c) s"

text \<open>\<open>s.endsWith(t)\<close>: the last \<open>length t\<close> code units of \<open>s\<close> are \<open>t\<close>.\<close>

definition endsWith :: "string \<Rightarrow> string \<Rightarrow> bool" where
  "endsWith s t = (length t \<le> length s \<and> drop (length s - length t) s = t)"

abbreviation QUOTE :: char where "QUOTE \<equiv> CHR 0x27"

section \<open>The path module of Node.js\<close>

text \<open>
  \<open>import * as path from "path"\<close> is the path module of the host: \<open>path.posix\<close> where
  the separator is the forward slash, \<open>path.win32\<close> on Windows. Both are modelled after
  \<open>lib/path.js\<close> of Node.js 10, loop by loop. The functions read the process only in
  \<open>resolve\<close>, for the working directory (and, on Windows, the working directory of a
  drive in the environment variable \<open>=X:\<close>); \<open>cwd = None\<close> is a process whose
  \<open>process.cwd()\<close> throws, and then the path function throws too (\<open>None\<close>).
\<close>

datatype platform = Posix | Win32

record process =
  platform :: platform
  cwd :: "string option"
  env :: "string \<Rightarrow> string option"

definition isPathSeparator :: "char option \<Rightarrow> bool" where
  "isPathSeparator code = (code = Some CHR ''/'' \<or> code = Some BACKSLASH)"

definition isPosixPathSeparator :: "char option \<Rightarrow> bool" where
  "isPosixPathSeparator code = (code = Some CHR ''/'')"

definition isWindowsDeviceRoot :: "char option \<Rightarrow> bool" where
  "isWindowsDeviceRoot code =
     (case code of None \<Rightarrow> False
      | Some c \<Rightarrow> c \<in> set ''ABCDEFGHIJKLMNOPQRSTUVWXYZ'' \<or> c \<in> set ''abcdefghijklmnopqrstuvwxyz'')"

text \<open>
  \<open>normalizeString(path, allowAboveRoot, separator, isPathSeparator)\<close> resolves the
  \<open>.\<close> and \<open>..\<close> segments of a path. \<open>norm_state\<close> holds the variables of its loop,
  \<open>norm_body\<close> is the loop body once \<open>code\<close> is set for index \<open>i\<close> (every \<open>continue\<close>
  comes after the same two assignments as the end of the body), and \<open>norm_above_root\<close>
  is the part of the body reached when a \<open>..\<close> segment cannot remove a segment.
\<close>

record norm_state =
  res :: string
  lastSegmentLength :: int
  lastSlash :: int
  dots :: int
  code :: "char option"

definition norm_above_root :: "bool \<Rightarrow> char \<Rightarrow> int \<Rightarrow> norm_state \<Rightarrow> norm_state" where
  "norm_above_root allowAboveRoot separator i st =
     (let st1 = (if allowAboveRoot
                 then st\<lparr> res := (if length (res st) > 0 then res st @ separator # ''..'' else ''..''),
                          lastSegmentLength := 2 \<rparr>
                 else st)
      in st1\<lparr> lastSlash := i, dots := 0 \<rparr>)"

definition norm_body ::
  "string \<Rightarrow> bool \<Rightarrow> char \<Rightarrow> (char option \<Rightarrow> bool) \<Rightarrow> int \<Rightarrow> norm_state \<Rightarrow> norm_state" where
  "norm_body path allowAboveRoot separator isSep i st =
     (if isSep (code st) then
        (if lastSlash st = i - 1 \<or> dots st = 1 then st\<lparr> lastSlash := i, dots := 0 \<rparr>
         else if lastSlash st \<noteq> i - 1 \<and> dots st = 2 then
           (if length (res st) < 2 \<or> lastSegmentLength st \<noteq> 2
                \<or> charCodeAt (res st) (int (length (res st)) - 1) \<noteq> Some CHR ''.''
                \<or> charCodeAt (res st) (int (length (res st)) - 2) \<noteq> Some CHR ''.''
            then
              (if length (res st) > 2 then
                 (let lastSlashIndex = lastIndexOf (res st) separator in
                  if lastSlashIndex \<noteq> int (length (res st)) - 1 then
                    (if lastSlashIndex = - 1
                     then st\<lparr> res := [], lastSegmentLength := 0, lastSlash := i, dots := 0 \<rparr>
                     else
                       (let res' = slice (res st) 0 lastSlashIndex in
                        st\<lparr> res := res',
                            lastSegmentLength := int (length res') - 1 - lastIndexOf res' separator,
                            lastSlash := i, dots := 0 \<rparr>))
                  else norm_above_root allowAboveRoot separator i st)
               else if length (res st) = 2 \<or> length (res st) = 1
               then st\<lparr> res := [], lastSegmentLength := 0, lastSlash := i, dots := 0 \<rparr>
               else norm_above_root allowAboveRoot separator i st)
            else norm_above_root allowAboveRoot separator i st)
         else
           st\<lparr> res := (if length (res st) > 0
                       then res st @ separator # slice path (lastSlash st + 1) i
                       else slice path (lastSlash st + 1) i),
               lastSegmentLength := i - lastSlash st - 1,
               lastSlash := i, dots := 0 \<rparr>)
      else if code st = Some CHR ''.'' \<and> dots st \<noteq> - 1 then st\<lparr> dots := dots st + 1 \<rparr>
      else st\<lparr> dots := - 1 \<rparr>)"

function normalizeString_loop ::
  "string \<Rightarrow> bool \<Rightarrow> char \<Rightarrow> (char option \<Rightarrow> bool) \<Rightarrow> int \<Rightarrow> norm_state \<Rightarrow> string" where
  "normalizeString_loop path allowAboveRoot separator isSep i st =
     (if i \<le> int (length path) then
        (if i < int (length path) then
           normalizeString_loop path allowAboveRoot separator isSep (i + 1)
             (norm_body path allowAboveRoot separator isSep i (st\<lparr> code := charCodeAt path i \<rparr>))
         else if isSep (code st) then res st
         else
           normalizeString_loop path allowAboveRoot separator isSep (i + 1)
             (norm_body path allowAboveRoot separator isSep i (st\<lparr> code := Some CHR ''/'' \<rparr>)))
      else res st)"
  by pat_completeness auto
termination
  by (relation "measure (\<lambda>(path, a, s, p, i, st). nat (int (length path) + 1 - i))") auto

definition normalizeString :: "string \<Rightarrow> bool \<Rightarrow> char \<Rightarrow> (char option \<Rightarrow> bool) \<Rightarrow> string" where
  "normalizeString path allowAboveRoot separator isSep =
     normalizeString_loop path allowAboveRoot separator isSep 0
       \<lparr> res = [], lastSegmentLength = 0, lastSlash = - 1, dots = 0, code = None \<rparr>"

subsection \<open>path.posix\<close>

fun posix_resolve_loop :: "process \<Rightarrow> string list \<Rightarrow> string \<times> bool \<Rightarrow> (string \<times> bool) option" where
  "posix_resolve_loop proc [] (resolvedPath, resolvedAbsolute) =
     (if resolvedAbsolute then Some (resolvedPath, resolvedAbsolute)
      else
        (case cwd proc of
           None \<Rightarrow> None
         | Some path \<Rightarrow>
             (if length path = 0 then Some (resolvedPath, resolvedAbsolute)
              else Some (path @ ''/'' @ resolvedPath, charCodeAt path 0 = Some CHR ''/''))))"
| "posix_resolve_loop proc (path # args) (resolvedPath, resolvedAbsolute) =
     (if resolvedAbsolute then Some (resolvedPath, resolvedAbsolute)
      else if length path = 0 then posix_resolve_loop proc args (resolvedPath, resolvedAbsolute)
      else posix_resolve_loop proc args
             (path @ ''/'' @ resolvedPath, charCodeAt path 0 = Some CHR ''/''))"

definition posix_resolve :: "process \<Rightarrow> string list \<Rightarrow> string option" where
  "posix_resolve proc args =
     (case posix_resolve_loop proc (rev args) ([], False) of
        None \<Rightarrow> None
      | Some (resolvedPath0, resolvedAbsolute) \<Rightarrow>
          (let resolvedPath =
                 normalizeString resolvedPath0 (\<not> resolvedAbsolute) CHR ''/'' isPosixPathSeparator
           in if resolvedAbsolute then
                (if length resolvedPath > 0 then Some (CHR ''/'' # resolvedPath) else Some ''/'')
              else if length resolvedPath > 0 then Some resolvedPath
              else Some ''.''))"

text \<open>
  \<open>for (; j < s.length; ++j) if (stop(s.charCodeAt(j))) break;\<close>: the index the scan
  stops at.
\<close>

function scan :: "string \<Rightarrow> (char option \<Rightarrow> bool) \<Rightarrow> int \<Rightarrow> int" where
  "scan s stop j =
     (if j < int (length s) then (if stop (charCodeAt s j) then j else scan s stop (j + 1))
      else j)"
  by pat_completeness auto
termination
  by (relation "measure (\<lambda>(s, stop, j). nat (int (length s) - j))") auto

text \<open>
  The comparison loop of \<open>posix.relative\<close>: \<open>Inl\<close> is a \<open>return\<close> from inside the loop,
  \<open>Inr\<close> the value of \<open>lastCommonSep\<close> at the \<open>break\<close>.
\<close>

function posix_compare_loop ::
  "string \<Rightarrow> int \<Rightarrow> int \<Rightarrow> string \<Rightarrow> int \<Rightarrow> int \<Rightarrow> int \<Rightarrow> int \<Rightarrow> int \<Rightarrow> string + int" where
  "posix_compare_loop from fromStart fromLen to toStart toLen len i lastCommonSep =
     (if i \<le> len then
        (if i = len then
           (if toLen > len then
              (if charCodeAt to (toStart + i) = Some CHR ''/''
               then Inl (slice_from to (toStart + i + 1))
               else if i = 0 then Inl (slice_from to (toStart + i))
               else Inr lastCommonSep)
            else if fromLen > len then
              (if charCodeAt from (fromStart + i) = Some CHR ''/'' then Inr i
               else if i = 0 then Inr 0
               else Inr lastCommonSep)
            else Inr lastCommonSep)
         else
           (let fromCode = charCodeAt from (fromStart + i);
                toCode = charCodeAt to (toStart + i)
            in if fromCode \<noteq> toCode then Inr lastCommonSep
               else if fromCode = Some CHR ''/''
               then posix_compare_loop from fromStart fromLen to toStart toLen len (i + 1) i
               else posix_compare_loop from fromStart fromLen to toStart toLen len (i + 1)
                      lastCommonSep))
      else Inr lastCommonSep)"
  by pat_completeness auto
termination
  by (relation "measure (\<lambda>(f, fs, fl, t, ts, tl, len, i, l). nat (len + 1 - i))") auto

text \<open>The loop that writes one \<open>..\<close> for every remaining segment of \<open>from\<close>.\<close>

function up_loop :: "string \<Rightarrow> int \<Rightarrow> char \<Rightarrow> int \<Rightarrow> string \<Rightarrow> string" where
  "up_loop from fromEnd sep i out =
     (if i \<le> fromEnd then
        (if i = fromEnd \<or> charCodeAt from i = Some sep
         then up_loop from fromEnd sep (i + 1)
                (if length out = 0 then out @ ''..'' else out @ sep # ''..'')
         else up_loop from fromEnd sep (i + 1) out)
      else out)"
  by pat_completeness auto
termination
  by (relation "measure (\<lambda>(f, fe, s, i, out). nat (fe + 1 - i))") auto

definition posix_relative_resolved :: "string \<Rightarrow> string \<Rightarrow> string" where
  "posix_relative_resolved from to =
     (if from = to then []
      else
        (let fromStart = scan from (\<lambda>code. code \<noteq> Some CHR ''/'') 1;
             fromEnd = int (length from);
             fromLen = fromEnd - fromStart;
             toStart = scan to (\<lambda>code. code \<noteq> Some CHR ''/'') 1;
             toEnd = int (length to);
             toLen = toEnd - toStart;
             len = (if fromLen < toLen then fromLen else toLen)
         in case posix_compare_loop from fromStart fromLen to toStart toLen len 0 (- 1) of
              Inl r \<Rightarrow> r
            | Inr lastCommonSep \<Rightarrow>
                (let out = up_loop from fromEnd CHR ''/'' (fromStart + lastCommonSep + 1) []
                 in if length out > 0 then out @ slice_from to (toStart + lastCommonSep)
                    else
                      (let toStart1 = toStart + lastCommonSep;
                           toStart2 = (if charCodeAt to toStart1 = Some CHR ''/''
                                       then toStart1 + 1 else toStart1)
                       in slice_from to toStart2))))"

definition posix_relative :: "process \<Rightarrow> string \<Rightarrow> string \<Rightarrow> string option" where
  "posix_relative proc from to =
     (if from = to then Some []
      else
        (case posix_resolve proc [from] of
           None \<Rightarrow> None
         | Some from' \<Rightarrow>
             (case posix_resolve proc [to] of
                None \<Rightarrow> None
              | Some to' \<Rightarrow> Some (posix_relative_resolved from' to'))))"

text \<open>The backwards loop of \<open>dirname\<close>: the result is \<open>end\<close>, \<open>- 1\<close> when no index is found.\<close>

function dirname_loop :: "string \<Rightarrow> (char option \<Rightarrow> bool) \<Rightarrow> int \<Rightarrow> int \<Rightarrow> bool \<Rightarrow> int" where
  "dirname_loop path isSep lowest i matchedSlash =
     (if i \<ge> lowest then
        (if isSep (charCodeAt path i) then
           (if \<not> matchedSlash then i
            else dirname_loop path isSep lowest (i - 1) matchedSlash)
         else dirname_loop path isSep lowest (i - 1) False)
      else - 1)"
  by pat_completeness auto
termination
  by (relation "measure (\<lambda>(p, s, l, i, m). nat (i + 1 - l))") auto

definition posix_dirname :: "string \<Rightarrow> string" where
  "posix_dirname path =
     (if length path = 0 then ''.''
      else
        (let hasRoot = (charCodeAt path 0 = Some CHR ''/'');
             end = dirname_loop path isPosixPathSeparator 1 (int (length path) - 1) True
         in if end = - 1 then (if hasRoot then ''/'' else ''.'')
            else if hasRoot \<and> end = 1 then ''//''
            else slice path 0 end))"

subsection \<open>path.win32\<close>

text \<open>
  The root matcher at the head of the loop body of \<open>win32.resolve\<close>: the values of
  \<open>device\<close>, \<open>rootEnd\<close> and \<open>isAbsolute\<close> for a non-empty \<open>path\<close>.
\<close>

definition win32_resolve_root :: "string \<Rightarrow> string \<times> int \<times> bool" where
  "win32_resolve_root path =
     (let len = int (length path);
          code = charCodeAt path 0
      in if len > 1 then
           (if isPathSeparator code then
              (if isPathSeparator (charCodeAt path 1) then
                 (let j1 = scan path isPathSeparator 2 in
                  if j1 < len \<and> j1 \<noteq> 2 then
                    (let firstPart = slice path 2 j1;
                         j2 = scan path (\<lambda>c. \<not> isPathSeparator c) j1
                     in if j2 < len \<and> j2 \<noteq> j1 then
                          (let j3 = scan path isPathSeparator j2 in
                           if j3 = len then
                             (BACKSLASH # BACKSLASH # firstPart @ BACKSLASH # slice_from path j2,
                              j3, True)
                           else if j3 \<noteq> j2 then
                             (BACKSLASH # BACKSLASH # firstPart @ BACKSLASH # slice path j2 j3,
                              j3, True)
                           else ([], 0, True))
                        else ([], 0, True))
                  else ([], 0, True))
               else ([], 1, True))
            else if isWindowsDeviceRoot code then
              (if charCodeAt path 1 = Some CHR '':'' then
                 (if len > 2 \<and> isPathSeparator (charCodeAt path 2)
                  then (slice path 0 2, 3, True)
                  else (slice path 0 2, 2, False))
               else ([], 0, False))
            else ([], 0, False))
         else if isPathSeparator code then ([], 1, True)
         else ([], 0, False))"

record win32_resolved =
  resolvedDevice :: string
  resolvedTail :: string
  resolvedAbsolute :: bool

text \<open>
  One pass of the loop body of \<open>win32.resolve\<close> for the given \<open>path\<close>: the new values of
  the three variables, and whether the loop is left by \<open>break\<close>.
\<close>

definition win32_resolve_step :: "string \<Rightarrow> win32_resolved \<Rightarrow> win32_resolved \<times> bool" where
  "win32_resolve_step path st =
     (if length path = 0 then (st, False)
      else
        (case win32_resolve_root path of (device, rootEnd, isAbsolute) \<Rightarrow>
           if length device > 0 \<and> length (resolvedDevice st) > 0
              \<and> toLowerCase device \<noteq> toLowerCase (resolvedDevice st)
           then (st, False)
           else
             (let st1 = (if length (resolvedDevice st) = 0 \<and> length device > 0
                         then st\<lparr> resolvedDevice := device \<rparr> else st);
                  st2 = (if \<not> resolvedAbsolute st1
                         then st1\<lparr> resolvedTail := slice_from path rootEnd @ BACKSLASH # resolvedTail st1,
                                   resolvedAbsolute := isAbsolute \<rparr>
                         else st1)
              in (st2, length (resolvedDevice st2) > 0 \<and> resolvedAbsolute st2))))"

text \<open>
  The value of \<open>path\<close> in the last pass (\<open>i = -1\<close>): the working directory, or the
  drive's own working directory from the environment; \<open>None\<close> when \<open>process.cwd()\<close> throws.
\<close>

definition win32_cwd_path :: "process \<Rightarrow> string \<Rightarrow> string option" where
  "win32_cwd_path proc device =
     (if length device = 0 then cwd proc
      else
        (case (case env proc (CHR ''='' # device) of
                 Some v \<Rightarrow> (if length v > 0 then Some v else cwd proc)
               | None \<Rightarrow> cwd proc) of
           None \<Rightarrow> None
         | Some path \<Rightarrow>
             (if toLowerCase (slice path 0 3) \<noteq> toLowerCase device @ [BACKSLASH]
              then Some (device @ [BACKSLASH])
              else Some path)))"

fun win32_resolve_loop ::
  "process \<Rightarrow> string list \<Rightarrow> win32_resolved \<Rightarrow> win32_resolved option" where
  "win32_resolve_loop proc [] st =
     (case win32_cwd_path proc (resolvedDevice st) of
        None \<Rightarrow> None
      | Some path \<Rightarrow> Some (fst (win32_resolve_step path st)))"
| "win32_resolve_loop proc (path # args) st =
     (case win32_resolve_step path st of
        (st', leave) \<Rightarrow> if leave then Some st' else win32_resolve_loop proc args st')"

definition win32_resolve :: "process \<Rightarrow> string list \<Rightarrow> string option" where
  "win32_resolve proc args =
     (case win32_resolve_loop proc (rev args)
             \<lparr> resolvedDevice = [], resolvedTail = [], resolvedAbsolute = False \<rparr> of
        None \<Rightarrow> None
      | Some st \<Rightarrow>
          (let tail = normalizeString (resolvedTail st) (\<not> resolvedAbsolute st) BACKSLASH
                        isPathSeparator;
               r = resolvedDevice st @ (if resolvedAbsolute st then [BACKSLASH] else []) @ tail
           in if length r > 0 then Some r else Some ''.''))"

text \<open>
  The comparison loop of \<open>win32.relative\<close>: \<open>Inl\<close> is a \<open>return\<close> from inside the loop,
  \<open>Inr\<close> the values of \<open>i\<close> and \<open>lastCommonSep\<close> at the \<open>break\<close>.
\<close>

function win32_compare_loop ::
  "string \<Rightarrow> int \<Rightarrow> int \<Rightarrow> string \<Rightarrow> string \<Rightarrow> int \<Rightarrow> int \<Rightarrow> int \<Rightarrow> int \<Rightarrow> int
     \<Rightarrow> string + int \<times> int" where
  "win32_compare_loop from fromStart fromLen to toOrig toStart toLen len i lastCommonSep =
     (if i \<le> len then
        (if i = len then
           (if toLen > len \<and> charCodeAt to (toStart + i) = Some BACKSLASH
            then Inl (slice_from toOrig (toStart + i + 1))
            else if toLen > len \<and> i = 2
            then Inl (slice_from toOrig (toStart + i))
            else if fromLen > len then
              (if charCodeAt from (fromStart + i) = Some BACKSLASH then Inr (i, i)
               else if i = 2 then Inr (i, 3)
               else Inr (i, lastCommonSep))
            else Inr (i, lastCommonSep))
         else
           (let fromCode = charCodeAt from (fromStart + i);
                toCode = charCodeAt to (toStart + i)
            in if fromCode \<noteq> toCode then Inr (i, lastCommonSep)
               else if fromCode = Some BACKSLASH
               then win32_compare_loop from fromStart fromLen to toOrig toStart toLen len (i + 1) i
               else win32_compare_loop from fromStart fromLen to toOrig toStart toLen len (i + 1)
                      lastCommonSep))
      else Inr (i, lastCommonSep))"
  by pat_completeness auto
termination
  by (relation "measure (\<lambda>(f, fs, fl, t, tor, ts, tl, len, i, l). nat (len + 1 - i))") auto

text \<open>\<open>for (; e - 1 > start; --e) if (s.charCodeAt(e - 1) !== c) break;\<close>\<close>

function trim_end :: "string \<Rightarrow> char \<Rightarrow> int \<Rightarrow> int \<Rightarrow> int" where
  "trim_end s c start e =
     (if e - 1 > start then (if charCodeAt s (e - 1) \<noteq> Some c then e else trim_end s c start (e - 1))
      else e)"
  by pat_completeness auto
termination
  by (relation "measure (\<lambda>(s, c, start, e). nat (e - start))") auto

definition win32_relative_resolved :: "string \<Rightarrow> string \<Rightarrow> string" where
  "win32_relative_resolved fromOrig toOrig =
     (if fromOrig = toOrig then []
      else
        (let from = toLowerCase fromOrig;
             to = toLowerCase toOrig
         in if from = to then []
            else
              (let fromStart = scan from (\<lambda>code. code \<noteq> Some BACKSLASH) 0;
                   fromEnd = trim_end from BACKSLASH fromStart (int (length from));
                   fromLen = fromEnd - fromStart;
                   toStart = scan to (\<lambda>code. code \<noteq> Some BACKSLASH) 0;
                   toEnd = trim_end to BACKSLASH toStart (int (length to));
                   toLen = toEnd - toStart;
                   len = (if fromLen < toLen then fromLen else toLen)
               in case win32_compare_loop from fromStart fromLen to toOrig toStart toLen len 0 (- 1) of
                    Inl r \<Rightarrow> r
                  | Inr (i, lastCommonSep0) \<Rightarrow>
                      (if i \<noteq> len \<and> lastCommonSep0 = - 1 then toOrig
                       else
                         (let lastCommonSep = (if lastCommonSep0 = - 1 then 0 else lastCommonSep0);
                              out = up_loop from fromEnd BACKSLASH (fromStart + lastCommonSep + 1) []
                          in if length out > 0
                             then out @ slice toOrig (toStart + lastCommonSep) toEnd
                             else
                               (let toStart1 = toStart + lastCommonSep;
                                    toStart2 = (if charCodeAt toOrig toStart1 = Some BACKSLASH
                                                then toStart1 + 1 else toStart1)
                                in slice toOrig toStart2 toEnd))))))"

definition win32_relative :: "process \<Rightarrow> string \<Rightarrow> string \<Rightarrow> string option" where
  "win32_relative proc from to =
     (if from = to then Some []
      else
        (case win32_resolve proc [from] of
           None \<Rightarrow> None
         | Some fromOrig \<Rightarrow>
             (case win32_resolve proc [to] of
                None \<Rightarrow> None
              | Some toOrig \<Rightarrow> Some (win32_relative_resolved fromOrig toOrig))))"

text \<open>
  The root matcher of \<open>win32.dirname\<close> for a non-empty \<open>path\<close>: \<open>None\<close> where the function
  returns \<open>path\<close> at once, otherwise the values of \<open>rootEnd\<close> and \<open>offset\<close>.
\<close>

definition win32_dirname_root :: "string \<Rightarrow> (int \<times> int) option" where
  "win32_dirname_root path =
     (let len = int (length path);
          code = charCodeAt path 0
      in if len > 1 then
           (if isPathSeparator code then
              (if isPathSeparator (charCodeAt path 1) then
                 (let j1 = scan path isPathSeparator 2 in
                  if j1 < len \<and> j1 \<noteq> 2 then
                    (let j2 = scan path (\<lambda>c. \<not> isPathSeparator c) j1 in
                     if j2 < len \<and> j2 \<noteq> j1 then
                       (let j3 = scan path isPathSeparator j2 in
                        if j3 = len then None
                        else if j3 \<noteq> j2 then Some (j3 + 1, j3 + 1)
                        else Some (1, 1))
                     else Some (1, 1))
                  else Some (1, 1))
               else Some (1, 1))
            else if isWindowsDeviceRoot code then
              (if charCodeAt path 1 = Some CHR '':'' then
                 (if len > 2 \<and> isPathSeparator (charCodeAt path 2) then Some (3, 3)
                  else Some (2, 2))
               else Some (- 1, 0))
            else Some (- 1, 0))
         else if isPathSeparator code then None
         else Some (- 1, 0))"

definition win32_dirname :: "string \<Rightarrow> string" where
  "win32_dirname path =
     (if length path = 0 then ''.''
      else
        (case win32_dirname_root path of
           None \<Rightarrow> path
         | Some (rootEnd, offset) \<Rightarrow>
             (let end = dirname_loop path isPathSeparator offset (int (length path) - 1) True in
              if end = - 1 then (if rootEnd = - 1 then ''.'' else slice path 0 rootEnd)
              else slice path 0 end)))"

subsection \<open>The module of the host\<close>

definition relative :: "process \<Rightarrow> string \<Rightarrow> string \<Rightarrow> string option" where
  "relative proc from to =
     (case platform proc of
        Posix \<Rightarrow> posix_relative proc from to
      | Win32 \<Rightarrow> win32_relative proc from to)"

definition dirname :: "process \<Rightarrow> string \<Rightarrow> string" where
  "dirname proc path =
     (case platform proc of
        Posix \<Rightarrow> posix_dirname path
      | Win32 \<Rightarrow> win32_dirname path)"

text \<open>
  A path that names its own root, so that \<open>resolve\<close> never asks for the working
  directory: on POSIX it starts with a slash, on Windows with a drive letter, a colon
  and a separator, or with a UNC root.
\<close>

definition fullyQualified :: "platform \<Rightarrow> string \<Rightarrow> bool" where
  "fullyQualified p path =
     (case p of
        Posix \<Rightarrow> charCodeAt path 0 = Some CHR ''/''
      | Win32 \<Rightarrow>
          length path > 0 \<and>
          (case win32_resolve_root path of
             (device, rootEnd, isAbsolute) \<Rightarrow> length device > 0 \<and> isAbsolute))"

section \<open>The package label and the query\<close>

text \<open>
  \<open>new BazelQuery(workspace, query, options)\<close>: the object the query client is run on.
  The client itself (\<open>queryTargets\<close>, \<open>runAndParse\<close>) is a parameter of the model: a
  function from the query object to the outcome of its promise, \<open>Inl\<close> a rejection.
\<close>

record bazel_query =
  query_workspace :: string
  query_expression :: string
  query_options :: "string list"

text \<open>
  What an asynchronous function of the extension rejects with: the error of the query
  client, or the error thrown by \<open>process.cwd()\<close> inside \<open>path.relative\<close>.
\<close>

datatype 'e rejection = CwdError | QueryError 'e

text \<open>The calls that leave the extension, in the order they are made.\<close>

datatype effect = ShowWarningMessage string | RunQuery bazel_query

text \<open>
  Lines 32 to 41 of \<open>bazel_utils.ts\<close>, which are lines 43 to 52 of the CodeLens provider
  word for word: the value of \<open>pkg\<close> for a workspace and a BUILD file.
\<close>

definition pkg :: "process \<Rightarrow> string \<Rightarrow> string \<Rightarrow> string option" where
  "pkg proc workspace buildFile =
     (case relative proc workspace buildFile of
        None \<Rightarrow> None
      | Some relPathToDoc \<Rightarrow>
          (let relDirWithDoc0 = dirname proc relPathToDoc;
               relDirWithDoc = (if relDirWithDoc0 = ''.'' then [] else relDirWithDoc0)
           in Some (''//'' @ relDirWithDoc)))"

text \<open>
  The template literal \<open>'kind(rule, ${pkg}:all)'\<close>, single quotes included, and
  \<open>getTargetsForBuildFile(workspace, buildFile)\<close>: the promise it returns is the outcome
  of \<open>queryTargets\<close> on the query object, or the error thrown on the way to the label.
\<close>

definition kind_rule_query :: "string \<Rightarrow> string" where
  "kind_rule_query pkg_label = QUOTE # ''kind(rule, '' @ pkg_label @ '':all)'' @ [QUOTE]"

definition getTargetsForBuildFile ::
  "process \<Rightarrow> (bazel_query \<Rightarrow> 'e + 'r) \<Rightarrow> string \<Rightarrow> string \<Rightarrow> effect list
     \<Rightarrow> ('e rejection + 'r) \<times> effect list" where
  "getTargetsForBuildFile proc queryTargets workspace buildFile log =
     (case pkg proc workspace buildFile of
        None \<Rightarrow> (Inl CwdError, log)
      | Some pkg_label \<Rightarrow>
          (let q = \<lparr> query_workspace = workspace, query_expression = kind_rule_query pkg_label,
                      query_options = [] \<rparr>
           in case queryTargets q of
                Inl e \<Rightarrow> (Inl (QueryError e), log @ [RunQuery q])
              | Inr queryResult \<Rightarrow> (Inr queryResult, log @ [RunQuery q])))"

section \<open>Building the CodeLenses\<close>

text \<open>
  The body of the \<open>for (const rule of queryResult.rules)\<close> loop of \<open>addCodeLens\<close>: the
  command built for one rule, and the CodeLens pushed onto \<open>result\<close>.
\<close>

definition rule_cmd :: "string \<Rightarrow> rule \<Rightarrow> vs_command" where
  "rule_cmd bazelWorkspaceDirectory r =
     (let target = name r in
      if endsWith (ruleClass r) ''_test''
      then \<lparr> arguments = [\<lparr> workspaceDirectory = bazelWorkspaceDirectory, targets = [target] \<rparr>],
             command = ''bazel.testTarget'',
             title = ''Test '' @ target,
             tooltip = ''Build '' @ target \<rparr>
      else \<lparr> arguments = [\<lparr> workspaceDirectory = bazelWorkspaceDirectory, targets = [target] \<rparr>],
             command = ''bazel.buildTarget'',
             title = ''Build '' @ target,
             tooltip = ''Build '' @ target \<rparr>)"

fun addCodeLens_loop :: "string \<Rightarrow> rule list \<Rightarrow> code_lens list \<Rightarrow> code_lens list" where
  "addCodeLens_loop bazelWorkspaceDirectory [] result = result"
| "addCodeLens_loop bazelWorkspaceDirectory (r # rs) result =
     (let loc = location r;
          cmd = rule_cmd bazelWorkspaceDirectory r
      in addCodeLens_loop bazelWorkspaceDirectory rs
           (result @ [\<lparr> lens_range = location_range loc, lens_command = cmd \<rparr>]))"

definition addCodeLens :: "string \<Rightarrow> query_result \<Rightarrow> code_lens list" where
  "addCodeLens bazelWorkspaceDirectory queryResult =
     addCodeLens_loop bazelWorkspaceDirectory (rules queryResult) []"

text \<open>
  \<open>provideCodeLenses(document, token)\<close>, for \<open>fsPath = document.uri.fsPath\<close>; the token is
  not read. \<open>getBazelWorkspaceFolder\<close> is a parameter, \<open>None\<close> its \<open>undefined\<close>.
\<close>

definition provideCodeLenses ::
  "process \<Rightarrow> (string \<Rightarrow> string option) \<Rightarrow> (bazel_query \<Rightarrow> 'e + query_result) \<Rightarrow> string
     \<Rightarrow> effect list \<Rightarrow> ('e rejection + code_lens list) \<times> effect list" where
  "provideCodeLenses proc getBazelWorkspaceFolder runAndParse fsPath log =
     (case getBazelWorkspaceFolder fsPath of
        None \<Rightarrow>
          (Inr [],
           log @ [ShowWarningMessage
                    (''Bazel BUILD CodeLens unavailable as currently opened file is not in '' @
                     ''a Bazel workspace'')])
      | Some workspace \<Rightarrow>
          (case pkg proc workspace fsPath of
             None \<Rightarrow> (Inl CwdError, log)
           | Some pkg_label \<Rightarrow>
               (let q = \<lparr> query_workspace = workspace, query_expression = kind_rule_query pkg_label,
                      query_options = [] \<rparr>
                in case runAndParse q of
                     Inl e \<Rightarrow> (Inl (QueryError e), log @ [RunQuery q])
                   | Inr queryResult \<Rightarrow>
                       (Inr (addCodeLens workspace queryResult), log @ [RunQuery q]))))"

section \<open>Example inputs\<close>

text \<open>
  Two hosts whose working directory cannot be read; query results with one test rule,
  with one binary rule, with both in that order, and with no rule; query clients that
  answer with each of them and one whose promise rejects; a workspace lookup that finds
  \<open>/ws\<close> and one that finds nothing.
\<close>

definition posix_host :: process where
  "posix_host = \<lparr> platform = Posix, cwd = None, env = (\<lambda>_. None) \<rparr>"

definition win32_host :: process where
  "win32_host = \<lparr> platform = Win32, cwd = None, env = (\<lambda>_. None) \<rparr>"

definition go_test_result :: query_result where
  "go_test_result =
     \<lparr> rules = [\<lparr> name = ''//a/b:t'', ruleClass = ''go_test'',
                  location = \<lparr> location_range =
                    \<lparr> range_start = \<lparr> line = 3, character = 0 \<rparr>,
                      range_end = \<lparr> line = 7, character = 1 \<rparr> \<rparr> \<rparr> \<rparr>] \<rparr>"

definition go_binary_result :: query_result where
  "go_binary_result =
     \<lparr> rules = [\<lparr> name = ''//a/b:m'', ruleClass = ''go_binary'',
                  location = \<lparr> location_range =
                    \<lparr> range_start = \<lparr> line = 9, character = 0 \<rparr>,
                      range_end = \<lparr> line = 12, character = 1 \<rparr> \<rparr> \<rparr> \<rparr>] \<rparr>"

definition two_rules_result :: query_result where
  "two_rules_result = \<lparr> rules = rules go_test_result @ rules go_binary_result \<rparr>"

definition answering_client :: "bazel_query \<Rightarrow> string + query_result" where
  "answering_client q = Inr go_test_result"

definition binary_client :: "bazel_query \<Rightarrow> string + query_result" where
  "binary_client q = Inr go_binary_result"

definition two_rules_client :: "bazel_query \<Rightarrow> string + query_result" where
  "two_rules_client q = Inr two_rules_result"

definition empty_client :: "bazel_query \<Rightarrow> string + query_result" where
  "empty_client q = Inr \<lparr> rules = [] \<rparr>"

definition failing_client :: "bazel_query \<Rightarrow> string + query_result" where
  "failing_client q = Inl ''bazel query exited with code 7''"

definition workspace_ws :: "string \<Rightarrow> string option" where
  "workspace_ws fsPath = Some ''/ws''"

definition no_workspace :: "string \<Rightarrow> string option" where
  "no_workspace fsPath = None"

section \<open>The CodeLens list is the image of the rule list\<close>

lemma addCodeLens_loop_map:
  "addCodeLens_loop w rs acc =
     acc @ map (\<lambda>r. \<lparr> lens_range = location_range (location r), lens_command = rule_cmd w r \<rparr>) rs"
  by (induction rs arbitrary: acc) (simp_all add: Let_def)

lemma addCodeLens_map:
  "addCodeLens w qr =
     map (\<lambda>r. \<lparr> lens_range = location_range (location r), lens_command = rule_cmd w r \<rparr>) (rules qr)"
  by (simp add: addCodeLens_def addCodeLens_loop_map)

lemma addCodeLens_nth:
  assumes "i < length (rules qr)"
  shows "addCodeLens w qr ! i =
           \<lparr> lens_range = location_range (location (rules qr ! i)),
             lens_command = rule_cmd w (rules qr ! i) \<rparr>"
  using assms by (simp add: addCodeLens_map)

section \<open>Test rules and build rules\<close>

text \<open>
  When the workspace is found, the label is resolved and the query client answers with
  \<open>qr\<close>, the promise of \<open>provideCodeLenses\<close> resolves to the CodeLens list of \<open>qr\<close>.
\<close>

lemma provideCodeLenses_answered:
  assumes "getBazelWorkspaceFolder f = Some w"
      and "pkg proc w f = Some label"
      and "runAndParse \<lparr> query_workspace = w, query_expression = kind_rule_query label,
                         query_options = [] \<rparr> = Inr qr"
  shows "fst (provideCodeLenses proc getBazelWorkspaceFolder runAndParse f log) =
           Inr (addCodeLens w qr)"
  using assms by (simp add: provideCodeLenses_def Let_def)

text \<open>
  C3. When the query client answers with \<open>qr\<close>, \<open>provideCodeLenses\<close> resolves to a list
  that has, at the position of every rule of \<open>qr\<close> whose \<open>ruleClass\<close> ends with \<open>_test\<close>,
  the CodeLens on the range of that rule with the command \<open>bazel.testTarget\<close>, the title
  \<open>Test <name>\<close> and the tooltip \<open>Build <name>\<close>; the argument of the command is the
  adapter of the workspace directory and the one target.
\<close>

theorem test_rule_gets_test_action:
  assumes "getBazelWorkspaceFolder f = Some w"
      and "pkg proc w f = Some label"
      and "runAndParse \<lparr> query_workspace = w, query_expression = kind_rule_query label,
                         query_options = [] \<rparr> = Inr qr"
      and "i < length (rules qr)"
      and "endsWith (ruleClass (rules qr ! i)) ''_test''"
  shows "\<exists>lenses.
           fst (provideCodeLenses proc getBazelWorkspaceFolder runAndParse f log) = Inr lenses \<and>
           i < length lenses \<and>
           lenses ! i =
             \<lparr> lens_range = location_range (location (rules qr ! i)),
               lens_command =
                 \<lparr> arguments = [\<lparr> workspaceDirectory = w, targets = [name (rules qr ! i)] \<rparr>],
                   command = ''bazel.testTarget'',
                   title = ''Test '' @ name (rules qr ! i),
                   tooltip = ''Build '' @ name (rules qr ! i) \<rparr> \<rparr>"
proof -
  have "fst (provideCodeLenses proc getBazelWorkspaceFolder runAndParse f log) =
          Inr (addCodeLens w qr)"
    using assms(1-3) by (rule provideCodeLenses_answered)
  moreover have "i < length (addCodeLens w qr)"
    using assms(4) by (simp add: addCodeLens_map)
  moreover have "addCodeLens w qr ! i =
      \<lparr> lens_range = location_range (location (rules qr ! i)),
        lens_command =
          \<lparr> arguments = [\<lparr> workspaceDirectory = w, targets = [name (rules qr ! i)] \<rparr>],
            command = ''bazel.testTarget'',
            title = ''Test '' @ name (rules qr ! i),
            tooltip = ''Build '' @ name (rules qr ! i) \<rparr> \<rparr>"
    using assms(4,5) by (simp add: addCodeLens_nth rule_cmd_def Let_def)
  ultimately show ?thesis by blast
qed

theorem test_rule_gets_test_action_witness:
  "workspace_ws ''/ws/a/b/BUILD'' = Some ''/ws'' \<and>
   pkg posix_host ''/ws'' ''/ws/a/b/BUILD'' = Some ''//a/b'' \<and>
   answering_client \<lparr> query_workspace = ''/ws'', query_expression = kind_rule_query ''//a/b'',
                      query_options = [] \<rparr> = Inr go_test_result \<and>
   0 < length (rules go_test_result) \<and>
   endsWith (ruleClass (rules go_test_result ! 0)) ''_test'' \<and>
   fst (provideCodeLenses posix_host workspace_ws answering_client ''/ws/a/b/BUILD'' []) =
     Inr [\<lparr> lens_range = \<lparr> range_start = \<lparr> line = 3, character = 0 \<rparr>,
                            range_end = \<lparr> line = 7, character = 1 \<rparr> \<rparr>,
            lens_command =
              \<lparr> arguments = [\<lparr> workspaceDirectory = ''/ws'', targets = [''//a/b:t''] \<rparr>],
                command = ''bazel.testTarget'',
                title = ''Test //a/b:t'',
                tooltip = ''Build //a/b:t'' \<rparr> \<rparr>]"
proof -
  have found: "workspace_ws ''/ws/a/b/BUILD'' = Some ''/ws''"
    by (simp add: workspace_ws_def)
  have label: "pkg posix_host ''/ws'' ''/ws/a/b/BUILD'' = Some ''//a/b''"
    by code_simp
  have answer: "answering_client \<lparr> query_workspace = ''/ws'',
                   query_expression = kind_rule_query ''//a/b'', query_options = [] \<rparr> =
                Inr go_test_result"
    by (simp add: answering_client_def)
  have len: "0 < length (rules go_test_result)"
    by (simp add: go_test_result_def)
  have cls: "endsWith (ruleClass (rules go_test_result ! 0)) ''_test''"
    by (simp add: go_test_result_def endsWith_def)
  obtain lenses where
    r: "fst (provideCodeLenses posix_host workspace_ws answering_client ''/ws/a/b/BUILD'' []) =
          Inr lenses"
    and l: "0 < length lenses"
    and x: "lenses ! 0 =
      \<lparr> lens_range = location_range (location (rules go_test_result ! 0)),
        lens_command =
          \<lparr> arguments = [\<lparr> workspaceDirectory = ''/ws'',
                           targets = [name (rules go_test_result ! 0)] \<rparr>],
            command = ''bazel.testTarget'',
            title = ''Test '' @ name (rules go_test_result ! 0),
            tooltip = ''Build '' @ name (rules go_test_result ! 0) \<rparr> \<rparr>"
    using test_rule_gets_test_action
      [where getBazelWorkspaceFolder = workspace_ws and f = "''/ws/a/b/BUILD''"
        and w = "''/ws''" and proc = posix_host and label = "''//a/b''"
        and runAndParse = answering_client and qr = go_test_result and i = 0 and log = "[]",
        OF found label answer len cls] by blast
  have "fst (provideCodeLenses posix_host workspace_ws answering_client ''/ws/a/b/BUILD'' []) =
          Inr (addCodeLens ''/ws'' go_test_result)"
    using provideCodeLenses_answered
      [where getBazelWorkspaceFolder = workspace_ws and runAndParse = answering_client,
        OF found label answer] .
  with r have "length lenses = 1"
    by (auto simp: addCodeLens_map go_test_result_def)
  with l x have "lenses =
      [\<lparr> lens_range = \<lparr> range_start = \<lparr> line = 3, character = 0 \<rparr>,
                        range_end = \<lparr> line = 7, character = 1 \<rparr> \<rparr>,
         lens_command =
           \<lparr> arguments = [\<lparr> workspaceDirectory = ''/ws'', targets = [''//a/b:t''] \<rparr>],
             command = ''bazel.testTarget'',
             title = ''Test //a/b:t'',
             tooltip = ''Build //a/b:t'' \<rparr> \<rparr>]"
    by (cases lenses) (simp_all add: go_test_result_def)
  with r found label answer len cls show ?thesis
    by simp
qed

text \<open>
  C4. When the query client answers with \<open>qr\<close>, \<open>provideCodeLenses\<close> resolves to a list
  that has, at the position of every rule of \<open>qr\<close> whose \<open>ruleClass\<close> does not end with
  \<open>_test\<close>, the CodeLens on the range of that rule with the command
  \<open>bazel.buildTarget\<close>, title and tooltip both \<open>Build <name>\<close>.
\<close>

theorem other_rule_gets_build_action:
  assumes "getBazelWorkspaceFolder f = Some w"
      and "pkg proc w f = Some label"
      and "runAndParse \<lparr> query_workspace = w, query_expression = kind_rule_query label,
                         query_options = [] \<rparr> = Inr qr"
      and "i < length (rules qr)"
      and "\<not> endsWith (ruleClass (rules qr ! i)) ''_test''"
  shows "\<exists>lenses.
           fst (provideCodeLenses proc getBazelWorkspaceFolder runAndParse f log) = Inr lenses \<and>
           i < length lenses \<and>
           lenses ! i =
             \<lparr> lens_range = location_range (location (rules qr ! i)),
               lens_command =
                 \<lparr> arguments = [\<lparr> workspaceDirectory = w, targets = [name (rules qr ! i)] \<rparr>],
                   command = ''bazel.buildTarget'',
                   title = ''Build '' @ name (rules qr ! i),
                   tooltip = ''Build '' @ name (rules qr ! i) \<rparr> \<rparr>"
proof -
  have "fst (provideCodeLenses proc getBazelWorkspaceFolder runAndParse f log) =
          Inr (addCodeLens w qr)"
    using assms(1-3) by (rule provideCodeLenses_answered)
  moreover have "i < length (addCodeLens w qr)"
    using assms(4) by (simp add: addCodeLens_map)
  moreover have "addCodeLens w qr ! i =
      \<lparr> lens_range = location_range (location (rules qr ! i)),
        lens_command =
          \<lparr> arguments = [\<lparr> workspaceDirectory = w, targets = [name (rules qr ! i)] \<rparr>],
            command = ''bazel.buildTarget'',
            title = ''Build '' @ name (rules qr ! i),
            tooltip = ''Build '' @ name (rules qr ! i) \<rparr> \<rparr>"
    using assms(4,5) by (simp add: addCodeLens_nth rule_cmd_def Let_def)
  ultimately show ?thesis by blast
qed

theorem other_rule_gets_build_action_witness:
  "workspace_ws ''/ws/a/b/BUILD'' = Some ''/ws'' \<and>
   pkg posix_host ''/ws'' ''/ws/a/b/BUILD'' = Some ''//a/b'' \<and>
   binary_client \<lparr> query_workspace = ''/ws'', query_expression = kind_rule_query ''//a/b'',
                   query_options = [] \<rparr> = Inr go_binary_result \<and>
   0 < length (rules go_binary_result) \<and>
   \<not> endsWith (ruleClass (rules go_binary_result ! 0)) ''_test'' \<and>
   fst (provideCodeLenses posix_host workspace_ws binary_client ''/ws/a/b/BUILD'' []) =
     Inr [\<lparr> lens_range = \<lparr> range_start = \<lparr> line = 9, character = 0 \<rparr>,
                            range_end = \<lparr> line = 12, character = 1 \<rparr> \<rparr>,
            lens_command =
              \<lparr> arguments = [\<lparr> workspaceDirectory = ''/ws'', targets = [''//a/b:m''] \<rparr>],
                command = ''bazel.buildTarget'',
                title = ''Build //a/b:m'',
                tooltip = ''Build //a/b:m'' \<rparr> \<rparr>]"
proof -
  have found: "workspace_ws ''/ws/a/b/BUILD'' = Some ''/ws''"
    by (simp add: workspace_ws_def)
  have label: "pkg posix_host ''/ws'' ''/ws/a/b/BUILD'' = Some ''//a/b''"
    by code_simp
  have answer: "binary_client \<lparr> query_workspace = ''/ws'',
                   query_expression = kind_rule_query ''//a/b'', query_options = [] \<rparr> =
                Inr go_binary_result"
    by (simp add: binary_client_def)
  have len: "0 < length (rules go_binary_result)"
    by (simp add: go_binary_result_def)
  have cls: "\<not> endsWith (ruleClass (rules go_binary_result ! 0)) ''_test''"
    by (simp add: go_binary_result_def endsWith_def)
  obtain lenses where
    r: "fst (provideCodeLenses posix_host workspace_ws binary_client ''/ws/a/b/BUILD'' []) =
          Inr lenses"
    and l: "0 < length lenses"
    and x: "lenses ! 0 =
      \<lparr> lens_range = location_range (location (rules go_binary_result ! 0)),
        lens_command =
          \<lparr> arguments = [\<lparr> workspaceDirectory = ''/ws'',
                           targets = [name (rules go_binary_result ! 0)] \<rparr>],
            command = ''bazel.buildTarget'',
            title = ''Build '' @ name (rules go_binary_result ! 0),
            tooltip = ''Build '' @ name (rules go_binary_result ! 0) \<rparr> \<rparr>"
    using other_rule_gets_build_action
      [where getBazelWorkspaceFolder = workspace_ws and f = "''/ws/a/b/BUILD''"
        and w = "''/ws''" and proc = posix_host and label = "''//a/b''"
        and runAndParse = binary_client and qr = go_binary_result and i = 0 and log = "[]",
        OF found label answer len cls] by blast
  have "fst (provideCodeLenses posix_host workspace_ws binary_client ''/ws/a/b/BUILD'' []) =
          Inr (addCodeLens ''/ws'' go_binary_result)"
    using provideCodeLenses_answered
      [where getBazelWorkspaceFolder = workspace_ws and runAndParse = binary_client,
        OF found label answer] .
  with r have "length lenses = 1"
    by (auto simp: addCodeLens_map go_binary_result_def)
  with l x have "lenses =
      [\<lparr> lens_range = \<lparr> range_start = \<lparr> line = 9, character = 0 \<rparr>,
                        range_end = \<lparr> line = 12, character = 1 \<rparr> \<rparr>,
         lens_command =
           \<lparr> arguments = [\<lparr> workspaceDirectory = ''/ws'', targets = [''//a/b:m''] \<rparr>],
             command = ''bazel.buildTarget'',
             title = ''Build //a/b:m'',
             tooltip = ''Build //a/b:m'' \<rparr> \<rparr>]"
    by (cases lenses) (simp_all add: go_binary_result_def)
  with r found label answer len cls show ?thesis
    by simp
qed

text \<open>
  C8. When the query client answers with \<open>qr\<close>, \<open>provideCodeLenses\<close> resolves (it does
  not reject) to the rule list of \<open>qr\<close> mapped rule by rule to the CodeLens of the rule:
  one CodeLens for every rule, none left out and none added, in the order of the rules,
  each on the range of its rule's location and with its rule's name as the one target;
  a result with no rule gives the empty list.
\<close>

theorem one_lens_per_rule_in_order:
  assumes "getBazelWorkspaceFolder f = Some w"
      and "pkg proc w f = Some label"
      and "runAndParse \<lparr> query_workspace = w, query_expression = kind_rule_query label,
                         query_options = [] \<rparr> = Inr qr"
  shows "\<exists>lenses.
           fst (provideCodeLenses proc getBazelWorkspaceFolder runAndParse f log) = Inr lenses \<and>
           lenses =
             map (\<lambda>r. \<lparr> lens_range = location_range (location r), lens_command = rule_cmd w r \<rparr>)
               (rules qr) \<and>
           length lenses = length (rules qr) \<and>
           map lens_range lenses = map (\<lambda>r. location_range (location r)) (rules qr) \<and>
           map (\<lambda>l. map targets (arguments (lens_command l))) lenses =
             map (\<lambda>r. [[name r]]) (rules qr) \<and>
           (lenses = []) = (rules qr = [])"
proof -
  have "fst (provideCodeLenses proc getBazelWorkspaceFolder runAndParse f log) =
          Inr (addCodeLens w qr)"
    using assms by (rule provideCodeLenses_answered)
  moreover have "map (\<lambda>l. map targets (arguments (lens_command l))) (addCodeLens w qr) =
                 map (\<lambda>r. [[name r]]) (rules qr)"
    by (simp add: addCodeLens_map rule_cmd_def Let_def comp_def)
  ultimately show ?thesis
    by (simp add: addCodeLens_map comp_def)
qed

theorem one_lens_per_rule_in_order_witness:
  "workspace_ws ''/ws/a/b/BUILD'' = Some ''/ws'' \<and>
   pkg posix_host ''/ws'' ''/ws/a/b/BUILD'' = Some ''//a/b'' \<and>
   two_rules_client \<lparr> query_workspace = ''/ws'', query_expression = kind_rule_query ''//a/b'',
                      query_options = [] \<rparr> = Inr two_rules_result \<and>
   map name (rules two_rules_result) = [''//a/b:t'', ''//a/b:m''] \<and>
   (\<exists>lenses.
      fst (provideCodeLenses posix_host workspace_ws two_rules_client ''/ws/a/b/BUILD'' []) =
        Inr lenses \<and>
      length lenses = 2 \<and>
      map lens_range lenses =
        [\<lparr> range_start = \<lparr> line = 3, character = 0 \<rparr>, range_end = \<lparr> line = 7, character = 1 \<rparr> \<rparr>,
         \<lparr> range_start = \<lparr> line = 9, character = 0 \<rparr>, range_end = \<lparr> line = 12, character = 1 \<rparr> \<rparr>] \<and>
      map (\<lambda>l. title (lens_command l)) lenses = [''Test //a/b:t'', ''Build //a/b:m'']) \<and>
   empty_client \<lparr> query_workspace = ''/ws'', query_expression = kind_rule_query ''//a/b'',
                  query_options = [] \<rparr> = Inr \<lparr> rules = [] \<rparr> \<and>
   fst (provideCodeLenses posix_host workspace_ws empty_client ''/ws/a/b/BUILD'' []) = Inr []"
proof -
  have found: "workspace_ws ''/ws/a/b/BUILD'' = Some ''/ws''"
    by (simp add: workspace_ws_def)
  have label: "pkg posix_host ''/ws'' ''/ws/a/b/BUILD'' = Some ''//a/b''"
    by code_simp
  have two: "two_rules_client \<lparr> query_workspace = ''/ws'',
                query_expression = kind_rule_query ''//a/b'', query_options = [] \<rparr> =
             Inr two_rules_result"
    by (simp add: two_rules_client_def)
  have none: "empty_client \<lparr> query_workspace = ''/ws'',
                 query_expression = kind_rule_query ''//a/b'', query_options = [] \<rparr> =
              Inr \<lparr> rules = [] \<rparr>"
    by (simp add: empty_client_def)
  have names: "map name (rules two_rules_result) = [''//a/b:t'', ''//a/b:m'']"
    by (simp add: two_rules_result_def go_test_result_def go_binary_result_def)
  have a: "\<exists>lenses.
      fst (provideCodeLenses posix_host workspace_ws two_rules_client ''/ws/a/b/BUILD'' []) =
        Inr lenses \<and>
      length lenses = 2 \<and>
      map lens_range lenses =
        [\<lparr> range_start = \<lparr> line = 3, character = 0 \<rparr>, range_end = \<lparr> line = 7, character = 1 \<rparr> \<rparr>,
         \<lparr> range_start = \<lparr> line = 9, character = 0 \<rparr>, range_end = \<lparr> line = 12, character = 1 \<rparr> \<rparr>] \<and>
      map (\<lambda>l. title (lens_command l)) lenses = [''Test //a/b:t'', ''Build //a/b:m'']"
    using one_lens_per_rule_in_order
      [where getBazelWorkspaceFolder = workspace_ws and f = "''/ws/a/b/BUILD''"
        and w = "''/ws''" and proc = posix_host and label = "''//a/b''"
        and runAndParse = two_rules_client and qr = two_rules_result and log = "[]",
        OF found label two]
    by (auto simp: two_rules_result_def go_test_result_def go_binary_result_def rule_cmd_def
          endsWith_def Let_def)
  have b: "fst (provideCodeLenses posix_host workspace_ws empty_client ''/ws/a/b/BUILD'' []) = Inr []"
    using one_lens_per_rule_in_order
      [where getBazelWorkspaceFolder = workspace_ws and f = "''/ws/a/b/BUILD''"
        and w = "''/ws''" and proc = posix_host and label = "''//a/b''"
        and runAndParse = empty_client and qr = "\<lparr> rules = [] \<rparr>" and log = "[]",
        OF found label none]
    by auto
  show ?thesis
    using found label two none names a b by blast
qed

section \<open>Fully qualified paths need no working directory\<close>

lemma posix_resolve_rooted:
  assumes "charCodeAt path 0 = Some CHR ''/''"
  shows "posix_resolve proc [path] =
           Some (let r = normalizeString (path @ ''/'') False CHR ''/'' isPosixPathSeparator
                 in if length r > 0 then CHR ''/'' # r else ''/'')"
proof -
  from assms have "path \<noteq> []"
    by (auto simp: charCodeAt_def)
  with assms show ?thesis
    by (simp add: posix_resolve_def Let_def)
qed

lemma posix_relative_rooted:
  assumes "charCodeAt from 0 = Some CHR ''/''" and "charCodeAt to 0 = Some CHR ''/''"
  shows "posix_relative proc from to = posix_relative proc' from to"
    and "posix_relative proc from to \<noteq> None"
  using assms by (simp_all add: posix_relative_def posix_resolve_rooted)

lemma win32_resolve_loop_qualified:
  assumes "fullyQualified Win32 path"
  shows "win32_resolve_loop proc [path]
           \<lparr> resolvedDevice = [], resolvedTail = [], resolvedAbsolute = False \<rparr> =
         Some (fst (win32_resolve_step path
           \<lparr> resolvedDevice = [], resolvedTail = [], resolvedAbsolute = False \<rparr>))"
  using assms
  by (auto simp: fullyQualified_def win32_resolve_step_def Let_def split: prod.splits)

lemma win32_resolve_qualified:
  assumes "fullyQualified Win32 path"
  shows "win32_resolve proc [path] = win32_resolve proc' [path]"
    and "win32_resolve proc [path] \<noteq> None"
  using assms
  by (simp_all add: win32_resolve_def win32_resolve_loop_qualified Let_def
        del: win32_resolve_loop.simps)

lemma win32_relative_qualified:
  assumes "fullyQualified Win32 from" and "fullyQualified Win32 to"
  shows "win32_relative proc from to = win32_relative proc' from to"
    and "win32_relative proc from to \<noteq> None"
proof -
  obtain a where a: "win32_resolve proc [from] = Some a" "win32_resolve proc' [from] = Some a"
    using win32_resolve_qualified [OF assms(1)] by (metis not_Some_eq)
  obtain b where b: "win32_resolve proc [to] = Some b" "win32_resolve proc' [to] = Some b"
    using win32_resolve_qualified [OF assms(2)] by (metis not_Some_eq)
  show "win32_relative proc from to = win32_relative proc' from to"
    by (simp add: win32_relative_def a b)
  show "win32_relative proc from to \<noteq> None"
    by (simp add: win32_relative_def a b)
qed

lemma relative_qualified:
  assumes "fullyQualified (platform proc) from" and "fullyQualified (platform proc) to"
      and "platform proc' = platform proc"
  shows "relative proc' from to = relative proc from to"
    and "relative proc from to \<noteq> None"
proof -
  show "relative proc' from to = relative proc from to"
  proof (cases "platform proc")
    case Posix
    with assms show ?thesis
      using posix_relative_rooted(1) [of "from" to proc' proc]
      by (simp add: relative_def fullyQualified_def)
  next
    case Win32
    with assms show ?thesis
      using win32_relative_qualified(1) [of "from" to proc' proc]
      by (simp add: relative_def)
  qed
  show "relative proc from to \<noteq> None"
  proof (cases "platform proc")
    case Posix
    with assms show ?thesis
      using posix_relative_rooted(2) [of "from" to proc]
      by (simp add: relative_def fullyQualified_def)
  next
    case Win32
    with assms show ?thesis
      using win32_relative_qualified(2) [of "from" to proc]
      by (simp add: relative_def)
  qed
qed

lemma dirname_platform:
  "platform proc' = platform proc \<Longrightarrow> dirname proc' path = dirname proc path"
  by (simp add: dirname_def)

lemma posix_resolve_loop_cwd:
  "cwd proc = Some c \<Longrightarrow> posix_resolve_loop proc args acc \<noteq> None"
  by (induction proc args acc rule: posix_resolve_loop.induct) auto

lemma posix_resolve_cwd:
  "cwd proc = Some c \<Longrightarrow> posix_resolve proc args \<noteq> None"
  using posix_resolve_loop_cwd [of proc c "rev args" "([], False)"]
  by (auto simp: posix_resolve_def Let_def split: option.splits prod.splits)

lemma win32_cwd_path_cwd:
  "cwd proc = Some c \<Longrightarrow> win32_cwd_path proc device \<noteq> None"
  by (auto simp: win32_cwd_path_def split: option.splits)

lemma win32_resolve_loop_cwd:
  "cwd proc = Some c \<Longrightarrow> win32_resolve_loop proc args st \<noteq> None"
proof (induction args arbitrary: st)
  case Nil
  then show ?case
    using win32_cwd_path_cwd [of proc c "resolvedDevice st"] by (auto split: option.splits)
next
  case (Cons path args)
  then show ?case by (auto split: prod.splits)
qed

lemma win32_resolve_cwd:
  "cwd proc = Some c \<Longrightarrow> win32_resolve proc args \<noteq> None"
  using win32_resolve_loop_cwd [of proc c "rev args"]
  by (auto simp: win32_resolve_def Let_def split: option.splits)

lemma relative_cwd:
  assumes "cwd proc = Some c"
  shows "relative proc from to \<noteq> None"
  using posix_resolve_cwd [OF assms, of "[from]"] posix_resolve_cwd [OF assms, of "[to]"]
    win32_resolve_cwd [OF assms, of "[from]"] win32_resolve_cwd [OF assms, of "[to]"]
  by (auto simp: relative_def posix_relative_def win32_relative_def
           split: platform.splits option.splits)

lemma pkg_of_relative:
  "relative proc w f = Some r \<Longrightarrow>
   pkg proc w f = Some (''//'' @ (if dirname proc r = ''.'' then [] else dirname proc r))"
  by (simp add: pkg_def Let_def)

lemma pkg_None_iff: "pkg proc w f = None \<longleftrightarrow> relative proc w f = None"
  by (simp add: pkg_def Let_def split: option.splits)

lemma drive_path_fullyQualified:
  assumes "isWindowsDeviceRoot (Some d)" and "isPathSeparator (Some s)"
  shows "fullyQualified Win32 (d # CHR '':'' # s # rest)"
  using assms
  apply (simp add: fullyQualified_def win32_resolve_root_def Let_def charCodeAt_def slice_def)
  apply (auto simp: isPathSeparator_def isWindowsDeviceRoot_def)
  done

section \<open>The query and its failures\<close>

text \<open>
  C5. Whenever a package label is resolved, the one query run is on the object built
  from the workspace, the expression \<open>'kind(rule, <label>:all)'\<close> in single quotes, and
  the empty list of options, in \<open>getTargetsForBuildFile\<close> and in \<open>provideCodeLenses\<close>.
\<close>

theorem query_expression_format:
  assumes "pkg proc w f = Some label"
  shows "snd (getTargetsForBuildFile proc queryTargets w f log) =
           log @ [RunQuery \<lparr> query_workspace = w,
                             query_expression = QUOTE # ''kind(rule, '' @ label @ '':all)'' @ [QUOTE],
                             query_options = [] \<rparr>]
       \<and> (getBazelWorkspaceFolder f = Some w \<longrightarrow>
          snd (provideCodeLenses proc getBazelWorkspaceFolder runAndParse f log) =
            log @ [RunQuery \<lparr> query_workspace = w,
                              query_expression = QUOTE # ''kind(rule, '' @ label @ '':all)'' @ [QUOTE],
                              query_options = [] \<rparr>])"
  using assms
  by (simp add: getTargetsForBuildFile_def provideCodeLenses_def kind_rule_query_def Let_def
        split: sum.splits)

theorem query_expression_format_witness:
  "pkg posix_host ''/ws'' ''/ws/a/b/BUILD'' = Some ''//a/b'' \<and>
   snd (getTargetsForBuildFile posix_host answering_client ''/ws'' ''/ws/a/b/BUILD'' []) =
     [RunQuery \<lparr> query_workspace = ''/ws'',
                 query_expression = QUOTE # ''kind(rule, //a/b:all)'' @ [QUOTE],
                 query_options = [] \<rparr>] \<and>
   workspace_ws ''/ws/a/b/BUILD'' = Some ''/ws'' \<and>
   snd (provideCodeLenses posix_host workspace_ws answering_client ''/ws/a/b/BUILD'' []) =
     [RunQuery \<lparr> query_workspace = ''/ws'',
                 query_expression = QUOTE # ''kind(rule, //a/b:all)'' @ [QUOTE],
                 query_options = [] \<rparr>]"
proof -
  have label: "pkg posix_host ''/ws'' ''/ws/a/b/BUILD'' = Some ''//a/b''"
    by code_simp
  have found: "workspace_ws ''/ws/a/b/BUILD'' = Some ''/ws''"
    by (simp add: workspace_ws_def)
  show ?thesis
    using label found
      query_expression_format [OF label, of answering_client "[]" workspace_ws answering_client]
    by simp
qed

text \<open>
  C6. When \<open>getBazelWorkspaceFolder\<close> returns \<open>undefined\<close>, \<open>provideCodeLenses\<close> resolves
  to the empty list, and the only call it makes is the one warning: no query is run and
  nothing is rejected.
\<close>

theorem no_workspace_warns_once:
  assumes "getBazelWorkspaceFolder f = None"
  shows "provideCodeLenses proc getBazelWorkspaceFolder runAndParse f log =
           (Inr [],
            log @ [ShowWarningMessage
                     ''Bazel BUILD CodeLens unavailable as currently opened file is not in a Bazel workspace''])"
  using assms by (simp add: provideCodeLenses_def)

theorem no_workspace_warns_once_witness:
  "no_workspace ''/tmp/BUILD'' = None \<and>
   provideCodeLenses posix_host no_workspace answering_client ''/tmp/BUILD'' [] =
     (Inr [],
      [ShowWarningMessage
         ''Bazel BUILD CodeLens unavailable as currently opened file is not in a Bazel workspace''])"
proof -
  have absent: "no_workspace ''/tmp/BUILD'' = None"
    by (simp add: no_workspace_def)
  show ?thesis
    using absent
      no_workspace_warns_once [where getBazelWorkspaceFolder = no_workspace
        and f = "''/tmp/BUILD''" and proc = posix_host and runAndParse = answering_client
        and log = "[]"]
    by simp
qed

text \<open>
  C7. When the promise of the query client rejects with \<open>e\<close>, the promise of
  \<open>getTargetsForBuildFile\<close> and of \<open>provideCodeLenses\<close> rejects with that very \<open>e\<close>; the
  query was run once, and no list of CodeLenses is returned.
\<close>

theorem query_failure_propagates:
  assumes "pkg proc w f = Some label"
  shows "(queryTargets \<lparr> query_workspace = w, query_expression = kind_rule_query label,
                         query_options = [] \<rparr> = Inl e \<longrightarrow>
          getTargetsForBuildFile proc queryTargets w f log =
            (Inl (QueryError e),
             log @ [RunQuery \<lparr> query_workspace = w, query_expression = kind_rule_query label,
                               query_options = [] \<rparr>]))
       \<and> (getBazelWorkspaceFolder f = Some w \<and>
          runAndParse \<lparr> query_workspace = w, query_expression = kind_rule_query label,
                        query_options = [] \<rparr> = Inl e' \<longrightarrow>
          provideCodeLenses proc getBazelWorkspaceFolder runAndParse f log =
            (Inl (QueryError e'),
             log @ [RunQuery \<lparr> query_workspace = w, query_expression = kind_rule_query label,
                               query_options = [] \<rparr>]))"
  using assms by (simp add: getTargetsForBuildFile_def provideCodeLenses_def Let_def)

theorem query_failure_propagates_witness:
  "pkg posix_host ''/ws'' ''/ws/a/b/BUILD'' = Some ''//a/b'' \<and>
   failing_client \<lparr> query_workspace = ''/ws'', query_expression = kind_rule_query ''//a/b'',
                    query_options = [] \<rparr> = Inl ''bazel query exited with code 7'' \<and>
   getTargetsForBuildFile posix_host failing_client ''/ws'' ''/ws/a/b/BUILD'' [] =
     (Inl (QueryError ''bazel query exited with code 7''),
      [RunQuery \<lparr> query_workspace = ''/ws'', query_expression = kind_rule_query ''//a/b'',
                  query_options = [] \<rparr>]) \<and>
   workspace_ws ''/ws/a/b/BUILD'' = Some ''/ws'' \<and>
   provideCodeLenses posix_host workspace_ws failing_client ''/ws/a/b/BUILD'' [] =
     (Inl (QueryError ''bazel query exited with code 7''),
      [RunQuery \<lparr> query_workspace = ''/ws'', query_expression = kind_rule_query ''//a/b'',
                  query_options = [] \<rparr>])"
proof -
  have label: "pkg posix_host ''/ws'' ''/ws/a/b/BUILD'' = Some ''//a/b''"
    by code_simp
  have found: "workspace_ws ''/ws/a/b/BUILD'' = Some ''/ws''"
    by (simp add: workspace_ws_def)
  have fails: "failing_client \<lparr> query_workspace = ''/ws'',
                  query_expression = kind_rule_query ''//a/b'', query_options = [] \<rparr> =
               Inl ''bazel query exited with code 7''"
    by (simp add: failing_client_def)
  show ?thesis
    using label found fails
      query_failure_propagates [OF label, of failing_client "''bazel query exited with code 7''"
        "[]" workspace_ws failing_client "''bazel query exited with code 7''"]
    by simp
qed

section \<open>The package label\<close>

text \<open>
  C9. For a workspace root and a BUILD file path that are fully qualified, as the paths
  of the editor are, the label is a function of the two paths alone: two calls made in
  any two states of the process of one host (whatever its working directory and
  environment, readable or not) return the same label, and neither call throws.
\<close>

theorem pkg_depends_on_its_inputs_only:
  assumes "fullyQualified (platform proc) w"
      and "fullyQualified (platform proc) f"
      and "platform proc' = platform proc"
  shows "pkg proc' w f = pkg proc w f \<and> pkg proc w f \<noteq> None"
  using relative_qualified [OF assms] dirname_platform [OF assms(3)]
  by (simp add: pkg_def Let_def split: option.splits)

theorem pkg_depends_on_its_inputs_only_witness:
  "fullyQualified (platform posix_host) ''/ws'' \<and>
   fullyQualified (platform posix_host) ''/ws/a/b/BUILD'' \<and>
   platform (posix_host\<lparr> cwd := Some ''/home/dev'' \<rparr>) = platform posix_host \<and>
   pkg (posix_host\<lparr> cwd := Some ''/home/dev'' \<rparr>) ''/ws'' ''/ws/a/b/BUILD'' =
     pkg posix_host ''/ws'' ''/ws/a/b/BUILD'' \<and>
   pkg posix_host ''/ws'' ''/ws/a/b/BUILD'' \<noteq> None"
proof -
  have w: "fullyQualified (platform posix_host) ''/ws''"
    by (simp add: posix_host_def fullyQualified_def charCodeAt_def)
  have f: "fullyQualified (platform posix_host) ''/ws/a/b/BUILD''"
    by (simp add: posix_host_def fullyQualified_def charCodeAt_def)
  have p: "platform (posix_host\<lparr> cwd := Some ''/home/dev'' \<rparr>) = platform posix_host"
    by simp
  show ?thesis
    using w f p pkg_depends_on_its_inputs_only [OF w f p]
    by simp
qed

text \<open>
  C10. Whenever the resolver returns, the label begins with \<open>//\<close>, and it returns for
  every pair of fully qualified paths (and for every pair of paths at all when the
  working directory can be read), also when the BUILD file lies outside the workspace
  and the relative directory starts with \<open>..\<close>.
\<close>

theorem pkg_begins_with_two_slashes:
  assumes "cwd proc \<noteq> None \<or> (fullyQualified (platform proc) w \<and> fullyQualified (platform proc) f)"
  shows "\<exists>dir. pkg proc w f = Some (''//'' @ dir)"
proof -
  have "relative proc w f \<noteq> None"
    using assms relative_cwd [of proc _ w f] relative_qualified(2) [of proc w f proc]
    by auto
  then obtain r where "relative proc w f = Some r"
    by auto
  then show ?thesis
    using pkg_of_relative [of proc w f r] by blast
qed

theorem pkg_begins_with_two_slashes_witness:
  "cwd posix_host = None \<and>
   fullyQualified (platform posix_host) ''/ws'' \<and>
   fullyQualified (platform posix_host) ''/other/pkg/BUILD'' \<and>
   pkg posix_host ''/ws'' ''/other/pkg/BUILD'' = Some (''//'' @ ''../other/pkg'')"
proof -
  have w: "fullyQualified (platform posix_host) ''/ws''"
    by (simp add: posix_host_def fullyQualified_def charCodeAt_def)
  have f: "fullyQualified (platform posix_host) ''/other/pkg/BUILD''"
    by (simp add: posix_host_def fullyQualified_def charCodeAt_def)
  have h: "cwd posix_host \<noteq> None \<or>
           (fullyQualified (platform posix_host) ''/ws'' \<and>
            fullyQualified (platform posix_host) ''/other/pkg/BUILD'')"
    using w f by simp
  have l: "pkg posix_host ''/ws'' ''/other/pkg/BUILD'' = Some (''//'' @ ''../other/pkg'')"
    by code_simp
  show ?thesis
    using w f l pkg_begins_with_two_slashes [OF h]
    by (simp add: posix_host_def)
qed

text \<open>
  C1. On a Windows host the directory part of the label keeps the backslashes of
  \<open>path.win32\<close>: for the workspace \<open>C:/ws\<close> and the BUILD file \<open>C:/ws/a/b/BUILD\<close>, both
  written with forward slashes, the label is \<open>//a\<close>, a backslash, \<open>b\<close>.
\<close>

theorem win32_label_keeps_backslash:
  "pkg win32_host ''C:/ws'' ''C:/ws/a/b/BUILD'' = Some (''//a'' @ BACKSLASH # ''b'') \<and>
   BACKSLASH \<in> set (the (pkg win32_host ''C:/ws'' ''C:/ws/a/b/BUILD''))"
proof -
  have "pkg win32_host ''C:/ws'' ''C:/ws/a/b/BUILD'' = Some (''//a'' @ BACKSLASH # ''b'')"
    by code_simp
  then show ?thesis by simp
qed

text \<open>
  C2. On a Windows host the BUILD file \<open>a\b\BUILD\<close> under the workspace \<open>C:\ws\<close> gets the
  label \<open>//a\b\<close> with a backslash, which is not \<open>//a/b\<close>; the BUILD file at the workspace
  root gets \<open>//\<close> there as well.
\<close>

theorem win32_label_of_nested_package:
  "pkg win32_host (''C:'' @ BACKSLASH # ''ws'')
     (''C:'' @ BACKSLASH # ''ws'' @ BACKSLASH # ''a'' @ BACKSLASH # ''b'' @ BACKSLASH # ''BUILD'') =
     Some (''//a'' @ BACKSLASH # ''b'') \<and>
   Some (''//a'' @ BACKSLASH # ''b'') \<noteq> Some ''//a/b'' \<and>
   pkg win32_host (''C:'' @ BACKSLASH # ''ws'') (''C:'' @ BACKSLASH # ''ws'' @ BACKSLASH # ''BUILD'') =
     Some ''//''"
proof -
  have nested:
    "pkg win32_host (''C:'' @ BACKSLASH # ''ws'')
       (''C:'' @ BACKSLASH # ''ws'' @ BACKSLASH # ''a'' @ BACKSLASH # ''b'' @ BACKSLASH # ''BUILD'') =
     Some (''//a'' @ BACKSLASH # ''b'')"
    by code_simp
  have root:
    "pkg win32_host (''C:'' @ BACKSLASH # ''ws'') (''C:'' @ BACKSLASH # ''ws'' @ BACKSLASH # ''BUILD'') =
     Some ''//''"
    by code_simp
  show ?thesis using nested root by simp
qed

section \<open>The label on a POSIX host\<close>

text \<open>
  The loops of \<open>path.posix\<close> are unfolded one pass at a time here, by \<open>subst\<close>, so their
  equations leave the simplifier's set.
\<close>

declare normalizeString_loop.simps [simp del]
declare scan.simps [simp del]
declare posix_compare_loop.simps [simp del]
declare up_loop.simps [simp del]
declare dirname_loop.simps [simp del]

lemma charCodeAt_append_left:
  "0 \<le> i \<Longrightarrow> i < int (length xs) \<Longrightarrow> charCodeAt (xs @ ys) i = charCodeAt xs i"
  by (auto simp: charCodeAt_def nth_append)

lemma charCodeAt_append_right:
  "0 \<le> k \<Longrightarrow> charCodeAt (xs @ ys) (int (length xs) + k) = charCodeAt ys k"
  by (auto simp: charCodeAt_def nth_append nat_add_distrib)

lemma slice_append_left:
  "0 \<le> a \<Longrightarrow> 0 \<le> b \<Longrightarrow> b \<le> int (length xs) \<Longrightarrow> slice (xs @ ys) a b = slice xs a b"
  by (auto simp: slice_def Let_def min_def max_def)

lemma slice_append_right:
  "0 \<le> a \<Longrightarrow> 0 \<le> b \<Longrightarrow>
   slice (xs @ ys) (int (length xs) + a) (int (length xs) + b) = slice ys a b"
  by (auto simp: slice_def Let_def min_def max_def nat_add_distrib)

lemma norm_body_code: "code (norm_body path a sep isSep i st) = code st"
  by (simp add: norm_body_def norm_above_root_def Let_def)

lemma norm_body_sep:
  "isSep (code st) \<Longrightarrow>
   lastSlash (norm_body path a sep isSep i st) = i \<and> dots (norm_body path a sep isSep i st) = 0"
  by (simp add: norm_body_def norm_above_root_def Let_def)

lemma norm_body_lastSlash:
  "- 1 \<le> lastSlash st \<Longrightarrow> lastSlash st < i \<Longrightarrow>
   - 1 \<le> lastSlash (norm_body path a sep isSep i st) \<and>
   lastSlash (norm_body path a sep isSep i st) < i + 1"
  by (simp add: norm_body_def norm_above_root_def Let_def)

lemma norm_body_prefix:
  assumes "- 1 \<le> lastSlash st" and "0 \<le> i" and "i \<le> int (length xs)"
  shows "norm_body (xs @ ys) a sep isSep i st = norm_body xs a sep isSep i st"
proof -
  have "slice (xs @ ys) (lastSlash st + 1) i = slice xs (lastSlash st + 1) i"
    using assms by (intro slice_append_left) auto
  then show ?thesis
    by (simp add: norm_body_def)
qed


lemma norm_loop_prefix:
  assumes "0 \<le> i" and "i \<le> int (length w)" and "- 1 \<le> lastSlash st" and "lastSlash st < i"
  shows "\<exists>st'.
           normalizeString_loop (w @ CHR ''/'' # s) a CHR ''/'' isPosixPathSeparator i st =
             normalizeString_loop (w @ CHR ''/'' # s) a CHR ''/'' isPosixPathSeparator
               (int (length w) + 1) st' \<and>
           normalizeString_loop (w @ [CHR ''/'']) a CHR ''/'' isPosixPathSeparator i st = res st' \<and>
           lastSlash st' = int (length w) \<and> dots st' = 0"
  using assms
proof (induction "nat (int (length w) - i)" arbitrary: i st)
  case 0
  then have i: "i = int (length w)" by simp
  let ?p1 = "w @ [CHR ''/'']"
  let ?p2 = "w @ CHR ''/'' # s"
  let ?st = "st\<lparr> code := Some CHR ''/'' \<rparr>"
  let ?st' = "norm_body ?p1 a CHR ''/'' isPosixPathSeparator i ?st"
  have c1: "charCodeAt ?p2 i = Some CHR ''/''"
    by (simp add: i charCodeAt_def)
  have c2: "charCodeAt ?p1 i = Some CHR ''/''"
    by (simp add: i charCodeAt_def)
  have "norm_body (?p1 @ s) a CHR ''/'' isPosixPathSeparator i ?st = ?st'"
    using 0 by (intro norm_body_prefix) (simp_all add: i)
  then have b: "norm_body ?p2 a CHR ''/'' isPosixPathSeparator i ?st = ?st'"
    by simp
  have sep: "isPosixPathSeparator (code ?st)"
    by (simp add: isPosixPathSeparator_def)
  have l1: "normalizeString_loop ?p2 a CHR ''/'' isPosixPathSeparator i st =
            normalizeString_loop ?p2 a CHR ''/'' isPosixPathSeparator (i + 1) ?st'"
    by (subst normalizeString_loop.simps) (simp add: c1 b, simp add: i)
  have l2: "normalizeString_loop ?p1 a CHR ''/'' isPosixPathSeparator i st =
            normalizeString_loop ?p1 a CHR ''/'' isPosixPathSeparator (i + 1) ?st'"
    by (subst normalizeString_loop.simps) (simp add: c2, simp add: i)
  have l3: "normalizeString_loop ?p1 a CHR ''/'' isPosixPathSeparator (i + 1) ?st' = res ?st'"
    by (subst normalizeString_loop.simps)
       (simp add: i norm_body_code isPosixPathSeparator_def)
  have "lastSlash ?st' = i \<and> dots ?st' = 0"
    using sep by (rule norm_body_sep)
  then show ?case
    using l1 l2 l3 by (intro exI [of _ ?st']) (simp add: i)
next
  case (Suc n)
  then have i: "i < int (length w)" by linarith
  let ?p1 = "w @ [CHR ''/'']"
  let ?p2 = "w @ CHR ''/'' # s"
  let ?st = "st\<lparr> code := charCodeAt w i \<rparr>"
  let ?st' = "norm_body w a CHR ''/'' isPosixPathSeparator i ?st"
  have c1: "charCodeAt ?p2 i = charCodeAt w i"
    using Suc.prems i by (simp add: charCodeAt_append_left)
  have c2: "charCodeAt ?p1 i = charCodeAt w i"
    using Suc.prems i by (simp add: charCodeAt_append_left)
  have b1: "norm_body ?p2 a CHR ''/'' isPosixPathSeparator i ?st = ?st'"
    using Suc.prems by (intro norm_body_prefix) simp_all
  have b2: "norm_body ?p1 a CHR ''/'' isPosixPathSeparator i ?st = ?st'"
    using Suc.prems by (intro norm_body_prefix) simp_all
  have l1: "normalizeString_loop ?p2 a CHR ''/'' isPosixPathSeparator i st =
            normalizeString_loop ?p2 a CHR ''/'' isPosixPathSeparator (i + 1) ?st'"
    using i by (subst normalizeString_loop.simps) (simp add: c1 b1)
  have l2: "normalizeString_loop ?p1 a CHR ''/'' isPosixPathSeparator i st =
            normalizeString_loop ?p1 a CHR ''/'' isPosixPathSeparator (i + 1) ?st'"
    using i by (subst normalizeString_loop.simps) (simp add: c2 b2)
  have bounds: "- 1 \<le> lastSlash ?st' \<and> lastSlash ?st' < i + 1"
    using Suc.prems by (intro norm_body_lastSlash) simp_all
  have n: "n = nat (int (length w) - (i + 1))"
    using Suc.hyps(2) by linarith
  have "0 \<le> i + 1" "i + 1 \<le> int (length w)"
    using Suc.prems i by simp_all
  from Suc.hyps(1) [OF n this] bounds
  show ?case
    by (simp add: l1 l2)
qed

lemma norm_loop_plain_chars:
  assumes "path = pre @ seg @ rest" and "i = int (length pre)" and "seg \<noteq> []"
      and "\<forall>c \<in> set seg. c \<noteq> CHR ''/'' \<and> c \<noteq> CHR ''.''"
  shows "normalizeString_loop path a CHR ''/'' isPosixPathSeparator i st =
         normalizeString_loop path a CHR ''/'' isPosixPathSeparator (i + int (length seg))
           (st\<lparr> code := Some (last seg), dots := - 1 \<rparr>)"
  using assms
proof (induction seg arbitrary: pre i st)
  case Nil
  then show ?case by simp
next
  case (Cons c cs)
  have lt: "i < int (length path)"
    using Cons.prems by simp
  have cc: "charCodeAt path i = Some c"
    using Cons.prems charCodeAt_append_right [of 0 pre "(c # cs) @ rest"]
    by (simp add: charCodeAt_def)
  have c: "c \<noteq> CHR ''/''" "c \<noteq> CHR ''.''"
    using Cons.prems by simp_all
  have body: "norm_body path a CHR ''/'' isPosixPathSeparator i (st\<lparr> code := Some c \<rparr>) =
              st\<lparr> code := Some c, dots := - 1 \<rparr>"
    using c by (simp add: norm_body_def isPosixPathSeparator_def)
  have step: "normalizeString_loop path a CHR ''/'' isPosixPathSeparator i st =
              normalizeString_loop path a CHR ''/'' isPosixPathSeparator (i + 1)
                (st\<lparr> code := Some c, dots := - 1 \<rparr>)"
    using lt by (subst normalizeString_loop.simps) (simp add: cc body)
  show ?case
  proof (cases "cs = []")
    case True
    then show ?thesis using step by simp
  next
    case False
    have ih: "normalizeString_loop path a CHR ''/'' isPosixPathSeparator (i + 1)
            (st\<lparr> code := Some c, dots := - 1 \<rparr>) =
          normalizeString_loop path a CHR ''/'' isPosixPathSeparator (i + 1 + int (length cs))
            (st\<lparr> code := Some c, dots := - 1 \<rparr>\<lparr> code := Some (last cs), dots := - 1 \<rparr>)"
      using Cons.prems False
      by (intro Cons.IH [of "pre @ [c]"]) simp_all
    have idx: "i + 1 + int (length cs) = i + int (length (c # cs))"
      by simp
    have st_eq: "st\<lparr> code := Some c, dots := - 1 \<rparr>\<lparr> code := Some (last cs), dots := - 1 \<rparr> =
                 st\<lparr> code := Some (last (c # cs)), dots := - 1 \<rparr>"
      using False by simp
    show ?thesis
      by (simp only: step ih idx st_eq)
  qed
qed

lemma norm_loop_close_segment:
  assumes "i < int (length path)" and "charCodeAt path i = Some CHR ''/''"
      and "dots st = - 1" and "lastSlash st \<noteq> i - 1"
  shows "normalizeString_loop path a CHR ''/'' isPosixPathSeparator i st =
         normalizeString_loop path a CHR ''/'' isPosixPathSeparator (i + 1)
           (st\<lparr> code := Some CHR ''/'',
                res := (if res st = [] then slice path (lastSlash st + 1) i
                        else res st @ CHR ''/'' # slice path (lastSlash st + 1) i),
                lastSegmentLength := i - lastSlash st - 1,
                lastSlash := i, dots := 0 \<rparr>)"
proof -
  have body: "norm_body path a CHR ''/'' isPosixPathSeparator i (st\<lparr> code := Some CHR ''/'' \<rparr>) =
              st\<lparr> code := Some CHR ''/'',
                  res := (if res st = [] then slice path (lastSlash st + 1) i
                          else res st @ CHR ''/'' # slice path (lastSlash st + 1) i),
                  lastSegmentLength := i - lastSlash st - 1,
                  lastSlash := i, dots := 0 \<rparr>"
    using assms by (simp add: norm_body_def isPosixPathSeparator_def)
  show ?thesis
    using assms(1) by (subst normalizeString_loop.simps) (simp add: assms(2) body)
qed

lemma slice_middle:
  "slice (pre @ seg @ rest) (int (length pre)) (int (length pre) + int (length seg)) = seg"
  by (simp add: slice_def Let_def min_def)

lemma norm_loop_plain_segment:
  assumes "path = pre @ seg @ CHR ''/'' # rest" and "lastSlash st = int (length pre) - 1"
      and "seg \<noteq> []" and "\<forall>c \<in> set seg. c \<noteq> CHR ''/'' \<and> c \<noteq> CHR ''.''"
  shows "normalizeString_loop path a CHR ''/'' isPosixPathSeparator (int (length pre)) st =
         normalizeString_loop path a CHR ''/'' isPosixPathSeparator
           (int (length pre) + int (length seg) + 1)
           (st\<lparr> code := Some CHR ''/'',
                res := (if res st = [] then seg else res st @ CHR ''/'' # seg),
                lastSegmentLength := int (length seg),
                lastSlash := int (length pre) + int (length seg), dots := 0 \<rparr>)"
proof -
  let ?i = "int (length pre) + int (length seg)"
  let ?st1 = "st\<lparr> code := Some (last seg), dots := - 1 \<rparr>"
  have 1: "normalizeString_loop path a CHR ''/'' isPosixPathSeparator (int (length pre)) st =
           normalizeString_loop path a CHR ''/'' isPosixPathSeparator ?i ?st1"
    using assms by (intro norm_loop_plain_chars [of path pre seg "CHR ''/'' # rest"]) simp_all
  have lt: "?i < int (length path)"
    using assms(1) by simp
  have cc: "charCodeAt path ?i = Some CHR ''/''"
    using charCodeAt_append_right [of 0 "pre @ seg" "CHR ''/'' # rest"] assms(1)
    by (simp add: charCodeAt_def)
  have ls: "lastSlash ?st1 \<noteq> ?i - 1"
    using assms(2,3) by simp
  have sl: "slice path (lastSlash ?st1 + 1) ?i = seg"
    using slice_middle [of pre seg "CHR ''/'' # rest"] assms(1,2) by simp
  have 2: "normalizeString_loop path a CHR ''/'' isPosixPathSeparator ?i ?st1 =
           normalizeString_loop path a CHR ''/'' isPosixPathSeparator (?i + 1)
             (?st1\<lparr> code := Some CHR ''/'',
                   res := (if res ?st1 = [] then slice path (lastSlash ?st1 + 1) ?i
                           else res ?st1 @ CHR ''/'' # slice path (lastSlash ?st1 + 1) ?i),
                   lastSegmentLength := ?i - lastSlash ?st1 - 1,
                   lastSlash := ?i, dots := 0 \<rparr>)"
    using lt cc ls by (intro norm_loop_close_segment) simp_all
  show ?thesis
    unfolding 1 2 sl using assms(2) by simp
qed

lemma norm_loop_end:
  assumes "i = int (length path)" and "code st = Some CHR ''/''"
  shows "normalizeString_loop path a CHR ''/'' isPosixPathSeparator i st = res st"
  using assms
  by (subst normalizeString_loop.simps) (simp add: isPosixPathSeparator_def)

lemma hd_slice_prefix:
  assumes "xs = [] \<or> hd xs \<noteq> c"
  shows "slice xs 0 k = [] \<or> hd (slice xs 0 k) \<noteq> c"
proof (cases "slice xs 0 k = []")
  case True
  then show ?thesis by simp
next
  case False
  then obtain n where n: "slice xs 0 k = take n xs"
    by (auto simp: slice_def Let_def)
  with False have "xs \<noteq> []" "n \<noteq> 0"
    by auto
  then have "hd (take n xs) = hd xs"
    by (cases xs; cases n) simp_all
  with assms \<open>xs \<noteq> []\<close> n show ?thesis by simp
qed

lemma hd_slice_segment:
  assumes "0 \<le> a" and "a < b" and "b \<le> int (length xs)"
  shows "slice xs a b \<noteq> [] \<and> Some (hd (slice xs a b)) = charCodeAt xs a"
  using assms
  by (auto simp: slice_def Let_def min_def charCodeAt_def hd_drop_conv_nth)


lemma norm_body_inv:
  assumes ls: "- 1 \<le> lastSlash st" "lastSlash st < i"
      and seg: "\<forall>k. lastSlash st < k \<and> k < i \<longrightarrow> charCodeAt path k \<noteq> Some CHR ''/''"
      and hd: "res st = [] \<or> hd (res st) \<noteq> CHR ''/''"
      and i: "i \<le> int (length path)"
      and c: "code st = charCodeAt path i \<or> code st = Some CHR ''/''"
  shows "(\<forall>k. lastSlash (norm_body path a CHR ''/'' isPosixPathSeparator i st) < k \<and> k < i + 1
             \<longrightarrow> charCodeAt path k \<noteq> Some CHR ''/'') \<and>
         (res (norm_body path a CHR ''/'' isPosixPathSeparator i st) = [] \<or>
          hd (res (norm_body path a CHR ''/'' isPosixPathSeparator i st)) \<noteq> CHR ''/'')"
proof (cases "isPosixPathSeparator (code st)")
  case True
  have above: "\<And>s. res s = [] \<or> hd (res s) \<noteq> CHR ''/'' \<Longrightarrow>
      res (norm_above_root a CHR ''/'' i s) = [] \<or>
      hd (res (norm_above_root a CHR ''/'' i s)) \<noteq> CHR ''/''"
    by (auto simp: norm_above_root_def Let_def)
  have pop: "\<And>k. slice (res st) 0 k = [] \<or> hd (slice (res st) 0 k) \<noteq> CHR ''/''"
    using hd by (rule hd_slice_prefix)
  have new: "lastSlash st \<noteq> i - 1 \<Longrightarrow>
      slice path (lastSlash st + 1) i \<noteq> [] \<and>
      hd (slice path (lastSlash st + 1) i) \<noteq> CHR ''/''"
  proof -
    assume "lastSlash st \<noteq> i - 1"
    with ls have lt: "lastSlash st + 1 < i" by simp
    have "slice path (lastSlash st + 1) i \<noteq> [] \<and>
          Some (hd (slice path (lastSlash st + 1) i)) = charCodeAt path (lastSlash st + 1)"
      using ls lt i by (intro hd_slice_segment) simp_all
    moreover have "charCodeAt path (lastSlash st + 1) \<noteq> Some CHR ''/''"
      using seg lt by simp
    ultimately show ?thesis by auto
  qed
  have r: "res (norm_body path a CHR ''/'' isPosixPathSeparator i st) = [] \<or>
           hd (res (norm_body path a CHR ''/'' isPosixPathSeparator i st)) \<noteq> CHR ''/''"
    using True hd above [of st] pop new
    by (auto simp: norm_body_def Let_def)
  have "lastSlash (norm_body path a CHR ''/'' isPosixPathSeparator i st) = i"
    using True norm_body_sep [of isPosixPathSeparator st path a "CHR ''/''" i] by simp
  then show ?thesis using r by auto
next
  case False
  then have same: "lastSlash (norm_body path a CHR ''/'' isPosixPathSeparator i st) = lastSlash st"
                  "res (norm_body path a CHR ''/'' isPosixPathSeparator i st) = res st"
    by (simp_all add: norm_body_def)
  have "charCodeAt path i \<noteq> Some CHR ''/''"
    using False c by (auto simp: isPosixPathSeparator_def)
  then have "\<forall>k. lastSlash st < k \<and> k < i + 1 \<longrightarrow> charCodeAt path k \<noteq> Some CHR ''/''"
    using seg by (metis add.commute less_le zle_add1_eq_le)
  then show ?thesis using same hd by simp
qed


lemma norm_loop_inv:
  assumes "- 1 \<le> lastSlash st" and "lastSlash st < i"
      and "\<forall>k. lastSlash st < k \<and> k < i \<longrightarrow> charCodeAt path k \<noteq> Some CHR ''/''"
      and "res st = [] \<or> hd (res st) \<noteq> CHR ''/''"
  shows "normalizeString_loop path a CHR ''/'' isPosixPathSeparator i st = [] \<or>
         hd (normalizeString_loop path a CHR ''/'' isPosixPathSeparator i st) \<noteq> CHR ''/''"
  using assms
proof (induction path a "CHR ''/''" isPosixPathSeparator i st rule: normalizeString_loop.induct)
  case (1 path a i st)
  show ?case
  proof (cases "i \<le> int (length path)")
    case False
    then show ?thesis
      using "1.prems" by (subst (1 2) normalizeString_loop.simps) simp
  next
    case le: True
    show ?thesis
    proof (cases "i < int (length path)")
      case True
      let ?st = "st\<lparr> code := charCodeAt path i \<rparr>"
      let ?st' = "norm_body path a CHR ''/'' isPosixPathSeparator i ?st"
      have inv: "(\<forall>k. lastSlash ?st' < k \<and> k < i + 1 \<longrightarrow> charCodeAt path k \<noteq> Some CHR ''/'') \<and>
                 (res ?st' = [] \<or> hd (res ?st') \<noteq> CHR ''/'')"
        using "1.prems" le by (intro norm_body_inv) simp_all
      have bounds: "- 1 \<le> lastSlash ?st' \<and> lastSlash ?st' < i + 1"
        using "1.prems" by (intro norm_body_lastSlash) simp_all
      have "normalizeString_loop path a CHR ''/'' isPosixPathSeparator (i + 1) ?st' = [] \<or>
            hd (normalizeString_loop path a CHR ''/'' isPosixPathSeparator (i + 1) ?st') \<noteq> CHR ''/''"
        using le True inv bounds by (intro "1.hyps"(1)) simp_all
      then show ?thesis
        using True by (subst (1 2) normalizeString_loop.simps) simp
    next
      case False
      show ?thesis
      proof (cases "isPosixPathSeparator (code st)")
        case True
        then show ?thesis
          using le False "1.prems" by (subst (1 2) normalizeString_loop.simps) simp
      next
        case nosep: False
        let ?st = "st\<lparr> code := Some CHR ''/'' \<rparr>"
        let ?st' = "norm_body path a CHR ''/'' isPosixPathSeparator i ?st"
        have inv: "(\<forall>k. lastSlash ?st' < k \<and> k < i + 1 \<longrightarrow> charCodeAt path k \<noteq> Some CHR ''/'') \<and>
                   (res ?st' = [] \<or> hd (res ?st') \<noteq> CHR ''/'')"
          using "1.prems" le by (intro norm_body_inv) simp_all
        have bounds: "- 1 \<le> lastSlash ?st' \<and> lastSlash ?st' < i + 1"
          using "1.prems" by (intro norm_body_lastSlash) simp_all
        have "normalizeString_loop path a CHR ''/'' isPosixPathSeparator (i + 1) ?st' = [] \<or>
              hd (normalizeString_loop path a CHR ''/'' isPosixPathSeparator (i + 1) ?st') \<noteq> CHR ''/''"
          using le False nosep inv bounds by (intro "1.hyps"(2)) simp_all
        then show ?thesis
          using le False nosep by (subst (1 2) normalizeString_loop.simps) simp
      qed
    qed
  qed
qed

lemma normalizeString_no_leading_slash:
  "normalizeString path a CHR ''/'' isPosixPathSeparator = [] \<or>
   hd (normalizeString path a CHR ''/'' isPosixPathSeparator) \<noteq> CHR ''/''"
  unfolding normalizeString_def by (rule norm_loop_inv) (auto simp: charCodeAt_def)

lemma posix_compare_loop_prefix:
  assumes "0 \<le> i" and "i \<le> len" and "toLen > len"
      and "\<forall>k. i \<le> k \<and> k < len \<longrightarrow>
             charCodeAt from (fromStart + k) = charCodeAt to (toStart + k)"
      and "charCodeAt to (toStart + len) = Some CHR ''/''"
  shows "posix_compare_loop from fromStart fromLen to toStart toLen len i lastCommonSep =
         Inl (slice_from to (toStart + len + 1))"
  using assms
proof (induction "nat (len - i)" arbitrary: i lastCommonSep)
  case 0
  then have "i = len" by simp
  then show ?case
    using "0.prems" by (subst posix_compare_loop.simps) simp
next
  case (Suc n)
  then have lt: "i < len" by linarith
  have eq: "charCodeAt from (fromStart + i) = charCodeAt to (toStart + i)"
    using Suc.prems lt by simp
  have n: "n = nat (len - (i + 1))"
    using Suc.hyps(2) by linarith
  have rest: "\<forall>k. i + 1 \<le> k \<and> k < len \<longrightarrow>
                charCodeAt from (fromStart + k) = charCodeAt to (toStart + k)"
    using Suc.prems by simp
  have ih: "\<And>l. posix_compare_loop from fromStart fromLen to toStart toLen len (i + 1) l =
                 Inl (slice_from to (toStart + len + 1))"
    using Suc.prems lt rest by (intro Suc.hyps(1) [OF n]) simp_all
  show ?case
    using lt eq by (subst posix_compare_loop.simps) (simp add: ih Let_def)
qed

lemma norm_loop_tail_nested:
  assumes "lastSlash st = int (length w)"
  shows "normalizeString_loop (w @ CHR ''/'' # ''a/b/BUILD/'') a CHR ''/'' isPosixPathSeparator
           (int (length w) + 1) st =
         (if res st = [] then ''a/b/BUILD'' else res st @ ''/a/b/BUILD'')"
proof -
  let ?path = "w @ CHR ''/'' # ''a/b/BUILD/''"
  let ?st1 = "st\<lparr> code := Some CHR ''/'',
                  res := (if res st = [] then ''a'' else res st @ CHR ''/'' # ''a''),
                  lastSegmentLength := int (length ''a''),
                  lastSlash := int (length (w @ ''/'')) + int (length ''a''), dots := 0 \<rparr>"
  let ?st2 = "?st1\<lparr> code := Some CHR ''/'',
                  res := (if res ?st1 = [] then ''b'' else res ?st1 @ CHR ''/'' # ''b''),
                  lastSegmentLength := int (length ''b''),
                  lastSlash := int (length (w @ ''/a/'')) + int (length ''b''), dots := 0 \<rparr>"
  let ?st3 = "?st2\<lparr> code := Some CHR ''/'',
                  res := (if res ?st2 = [] then ''BUILD'' else res ?st2 @ CHR ''/'' # ''BUILD''),
                  lastSegmentLength := int (length ''BUILD''),
                  lastSlash := int (length (w @ ''/a/b/'')) + int (length ''BUILD''), dots := 0 \<rparr>"
  have 1: "normalizeString_loop ?path a CHR ''/'' isPosixPathSeparator (int (length (w @ ''/''))) st =
           normalizeString_loop ?path a CHR ''/'' isPosixPathSeparator
             (int (length (w @ ''/'')) + int (length ''a'') + 1) ?st1"
    using assms by (intro norm_loop_plain_segment [where rest = "''b/BUILD/''"]) simp_all
  have 2: "normalizeString_loop ?path a CHR ''/'' isPosixPathSeparator (int (length (w @ ''/a/''))) ?st1 =
           normalizeString_loop ?path a CHR ''/'' isPosixPathSeparator
             (int (length (w @ ''/a/'')) + int (length ''b'') + 1) ?st2"
    by (intro norm_loop_plain_segment [where rest = "''BUILD/''"]) simp_all
  have 3: "normalizeString_loop ?path a CHR ''/'' isPosixPathSeparator (int (length (w @ ''/a/b/''))) ?st2 =
           normalizeString_loop ?path a CHR ''/'' isPosixPathSeparator
             (int (length (w @ ''/a/b/'')) + int (length ''BUILD'') + 1) ?st3"
    by (intro norm_loop_plain_segment [where rest = "[]"]) simp_all
  have 4: "normalizeString_loop ?path a CHR ''/'' isPosixPathSeparator
             (int (length (w @ ''/a/b/'')) + int (length ''BUILD'') + 1) ?st3 = res ?st3"
    by (intro norm_loop_end) simp_all
  have i1: "int (length w) + 1 = int (length (w @ ''/''))" by simp
  have i2: "int (length (w @ ''/'')) + int (length ''a'') + 1 = int (length (w @ ''/a/''))" by simp
  have i3: "int (length (w @ ''/a/'')) + int (length ''b'') + 1 = int (length (w @ ''/a/b/''))" by simp
  have "normalizeString_loop ?path a CHR ''/'' isPosixPathSeparator (int (length w) + 1) st = res ?st3"
    by (simp only: i1 1 i2 2 i3 3 4)
  then show ?thesis by simp
qed

lemma norm_loop_tail_root:
  assumes "lastSlash st = int (length w)"
  shows "normalizeString_loop (w @ CHR ''/'' # ''BUILD/'') a CHR ''/'' isPosixPathSeparator
           (int (length w) + 1) st =
         (if res st = [] then ''BUILD'' else res st @ ''/BUILD'')"
proof -
  let ?path = "w @ CHR ''/'' # ''BUILD/''"
  let ?st1 = "st\<lparr> code := Some CHR ''/'',
                  res := (if res st = [] then ''BUILD'' else res st @ CHR ''/'' # ''BUILD''),
                  lastSegmentLength := int (length ''BUILD''),
                  lastSlash := int (length (w @ ''/'')) + int (length ''BUILD''), dots := 0 \<rparr>"
  have 1: "normalizeString_loop ?path a CHR ''/'' isPosixPathSeparator (int (length (w @ ''/''))) st =
           normalizeString_loop ?path a CHR ''/'' isPosixPathSeparator
             (int (length (w @ ''/'')) + int (length ''BUILD'') + 1) ?st1"
    using assms by (intro norm_loop_plain_segment [where rest = "[]"]) simp_all
  have 2: "normalizeString_loop ?path a CHR ''/'' isPosixPathSeparator
             (int (length (w @ ''/'')) + int (length ''BUILD'') + 1) ?st1 = res ?st1"
    by (intro norm_loop_end) simp_all
  have i1: "int (length w) + 1 = int (length (w @ ''/''))" by simp
  have "normalizeString_loop ?path a CHR ''/'' isPosixPathSeparator (int (length w) + 1) st = res ?st1"
    by (simp only: i1 1 2)
  then show ?thesis by simp
qed

lemma normalizeString_nested:
  "normalizeString (w @ ''/a/b/BUILD/'') a CHR ''/'' isPosixPathSeparator =
     (if normalizeString (w @ ''/'') a CHR ''/'' isPosixPathSeparator = [] then ''a/b/BUILD''
      else normalizeString (w @ ''/'') a CHR ''/'' isPosixPathSeparator @ ''/a/b/BUILD'')"
proof -
  let ?init = "\<lparr> res = [], lastSegmentLength = 0, lastSlash = - 1, dots = 0, code = None \<rparr>"
  obtain st' where
    "normalizeString_loop (w @ CHR ''/'' # ''a/b/BUILD/'') a CHR ''/'' isPosixPathSeparator 0 ?init =
       normalizeString_loop (w @ CHR ''/'' # ''a/b/BUILD/'') a CHR ''/'' isPosixPathSeparator
         (int (length w) + 1) st'"
    and "normalizeString_loop (w @ [CHR ''/'']) a CHR ''/'' isPosixPathSeparator 0 ?init = res st'"
    and "lastSlash st' = int (length w)"
    using norm_loop_prefix [of 0 w ?init "''a/b/BUILD/''" a] by auto
  then show ?thesis
    using norm_loop_tail_nested [of st' w a] by (simp add: normalizeString_def)
qed

lemma normalizeString_root:
  "normalizeString (w @ ''/BUILD/'') a CHR ''/'' isPosixPathSeparator =
     (if normalizeString (w @ ''/'') a CHR ''/'' isPosixPathSeparator = [] then ''BUILD''
      else normalizeString (w @ ''/'') a CHR ''/'' isPosixPathSeparator @ ''/BUILD'')"
proof -
  let ?init = "\<lparr> res = [], lastSegmentLength = 0, lastSlash = - 1, dots = 0, code = None \<rparr>"
  obtain st' where
    "normalizeString_loop (w @ CHR ''/'' # ''BUILD/'') a CHR ''/'' isPosixPathSeparator 0 ?init =
       normalizeString_loop (w @ CHR ''/'' # ''BUILD/'') a CHR ''/'' isPosixPathSeparator
         (int (length w) + 1) st'"
    and "normalizeString_loop (w @ [CHR ''/'']) a CHR ''/'' isPosixPathSeparator 0 ?init = res st'"
    and "lastSlash st' = int (length w)"
    using norm_loop_prefix [of 0 w ?init "''BUILD/''" a] by auto
  then show ?thesis
    using norm_loop_tail_root [of st' w a] by (simp add: normalizeString_def)
qed

lemma scan_stops:
  assumes "j < int (length s)" and "stop (charCodeAt s j)"
  shows "scan s stop j = j"
  using assms by (subst scan.simps) simp

lemma posix_relative_resolved_below:
  assumes "r \<noteq> []" and "hd r \<noteq> CHR ''/''"
  shows "posix_relative_resolved (CHR ''/'' # r) (CHR ''/'' # r @ CHR ''/'' # t) = t"
proof -
  let ?from = "CHR ''/'' # r"
  let ?to = "CHR ''/'' # r @ CHR ''/'' # t"
  have r1: "charCodeAt ?from 1 = Some (hd r)" "charCodeAt ?to 1 = Some (hd r)"
    using assms(1) by (cases r; simp add: charCodeAt_def)+
  have fs: "scan ?from (\<lambda>code. code \<noteq> Some CHR ''/'') 1 = 1"
    using assms r1 by (intro scan_stops) simp_all
  have ts: "scan ?to (\<lambda>code. code \<noteq> Some CHR ''/'') 1 = 1"
    using assms r1 by (intro scan_stops) simp_all
  have same: "\<forall>k. 0 \<le> k \<and> k < int (length r) \<longrightarrow>
                charCodeAt ?from (1 + k) = charCodeAt ?to (1 + k)"
    by (auto simp: charCodeAt_def nth_append nat_add_distrib)
  have sep: "charCodeAt ?to (1 + int (length r)) = Some CHR ''/''"
    by (simp add: charCodeAt_def nat_add_distrib)
  have sl: "slice_from ?to (1 + int (length r) + 1) = t"
    by (simp add: slice_from_def slice_def Let_def nat_add_distrib)
  have loop: "posix_compare_loop ?from 1 (int (length r)) ?to 1 toLen (int (length r)) 0 (- 1) =
              Inl t" if "int (length r) < toLen" for toLen
  proof -
    have "posix_compare_loop ?from 1 (int (length r)) ?to 1 toLen (int (length r)) 0 (- 1) =
          Inl (slice_from ?to (1 + int (length r) + 1))"
      using same sep that by (intro posix_compare_loop_prefix) simp_all
    then show ?thesis
      by (simp only: sl)
  qed
  have ne: "?from \<noteq> ?to"
    by simp
  show ?thesis
    unfolding posix_relative_resolved_def
    using ne by (simp add: fs ts Let_def loop)
qed

lemma posix_relative_below:
  assumes "charCodeAt w 0 = Some CHR ''/''"
      and nest: "normalizeString (w @ CHR ''/'' # t @ ''/'') False CHR ''/'' isPosixPathSeparator =
             (if normalizeString (w @ ''/'') False CHR ''/'' isPosixPathSeparator = [] then t
              else normalizeString (w @ ''/'') False CHR ''/'' isPosixPathSeparator @ CHR ''/'' # t)"
      and root: "posix_relative_resolved ''/'' (CHR ''/'' # t) = t"
      and "t \<noteq> []"
  shows "posix_relative proc w (w @ CHR ''/'' # t) = Some t"
proof -
  let ?r = "normalizeString (w @ ''/'') False CHR ''/'' isPosixPathSeparator"
  have w: "posix_resolve proc [w] = Some (if ?r = [] then ''/'' else CHR ''/'' # ?r)"
    using posix_resolve_rooted [OF assms(1), of proc] by (simp add: Let_def)
  have "charCodeAt (w @ CHR ''/'' # t) 0 = Some CHR ''/''"
    using assms(1) by (auto simp: charCodeAt_def nth_append split: if_splits)
  from posix_resolve_rooted [OF this, of proc]
  have f: "posix_resolve proc [w @ CHR ''/'' # t] =
             Some (if ?r = [] then CHR ''/'' # t else CHR ''/'' # ?r @ CHR ''/'' # t)"
    using nest \<open>t \<noteq> []\<close> by (simp add: Let_def)
  have ne: "w \<noteq> w @ CHR ''/'' # t"
    by simp
  show ?thesis
  proof (cases "?r = []")
    case True
    then show ?thesis
      using ne by (simp add: posix_relative_def w f root)
  next
    case False
    then have "hd ?r \<noteq> CHR ''/''"
      using normalizeString_no_leading_slash [of "w @ ''/''" False] by simp
    then have "posix_relative_resolved (CHR ''/'' # ?r) (CHR ''/'' # ?r @ CHR ''/'' # t) = t"
      using False by (intro posix_relative_resolved_below)
    then show ?thesis
      using ne False by (simp add: posix_relative_def w f)
  qed
qed

text \<open>
  On a POSIX host, for every workspace root that starts with a slash, whatever its
  segments (empty ones, \<open>.\<close> and \<open>..\<close> included), the BUILD file two directories below
  the root gets the label of those directories and the BUILD file at the root gets
  \<open>//\<close>. The Windows labels of the same files are evaluated under C1 and C2.
\<close>

lemma posix_label_of_package:
  assumes "platform proc = Posix" and "fullyQualified Posix w"
  shows "pkg proc w (w @ ''/a/b/BUILD'') = Some ''//a/b'' \<and>
         pkg proc w (w @ ''/BUILD'') = Some ''//''"
proof -
  have abs: "charCodeAt w 0 = Some CHR ''/''"
    using assms(2) by (simp add: fullyQualified_def)
  have r1: "posix_relative_resolved ''/'' (CHR ''/'' # ''a/b/BUILD'') = ''a/b/BUILD''"
    by code_simp
  have r2: "posix_relative_resolved ''/'' (CHR ''/'' # ''BUILD'') = ''BUILD''"
    by code_simp
  have d1: "posix_dirname ''a/b/BUILD'' = ''a/b''"
    by code_simp
  have d2: "posix_dirname ''BUILD'' = ''.''"
    by code_simp
  have "posix_relative proc w (w @ CHR ''/'' # ''a/b/BUILD'') = Some ''a/b/BUILD''"
    using abs normalizeString_nested [of w False] r1
    by (intro posix_relative_below) simp_all
  then have nested: "pkg proc w (w @ ''/a/b/BUILD'') = Some ''//a/b''"
    using assms(1) d1 by (simp add: pkg_def relative_def dirname_def)
  have "posix_relative proc w (w @ CHR ''/'' # ''BUILD'') = Some ''BUILD''"
    using abs normalizeString_root [of w False] r2
    by (intro posix_relative_below) simp_all
  then have root: "pkg proc w (w @ ''/BUILD'') = Some ''//''"
    using assms(1) d2 by (simp add: pkg_def relative_def dirname_def)
  show ?thesis
    using nested root by simp
qed

lemma posix_label_of_package_example:
  "pkg (posix_host\<lparr> cwd := Some ''/home/dev'' \<rparr>) ''/srv/../ws//'' (''/srv/../ws//'' @ ''/a/b/BUILD'') =
     Some ''//a/b''"
proof -
  have q: "fullyQualified Posix ''/srv/../ws//''"
    by (simp add: fullyQualified_def charCodeAt_def)
  have p: "platform (posix_host\<lparr> cwd := Some ''/home/dev'' \<rparr>) = Posix"
    by (simp add: posix_host_def)
  show ?thesis
    using posix_label_of_package [OF p q] by simp
qed

end
